theory Spec2Isabelle
  imports Complex_Main "HOL-Library.Sublist"
begin

section \<open>Errors and strings\<close>

text \<open>
  A Go \<^verbatim>\<open>error\<close> is an interface value: a dynamic type together with the text that
  its \<^verbatim>\<open>Error()\<close> method returns.  The nil error is \<open>None\<close> of \<open>go_error option\<close>.
  Only the dynamic types that the request pipeline produces or inspects are named; any
  other one is \<open>other_error\<close> with the name of its type.
\<close>

datatype error_type =
    errors_errorString
  | url_Error
  | json_SyntaxError
  | json_UnmarshalTypeError
  | other_error string

datatype go_error = GoError (dynamic_type: error_type) (Error: string)

text \<open>\<^verbatim>\<open>errors.New\<close>; \<^verbatim>\<open>fmt.Errorf\<close> without a wrapping verb builds the same type.\<close>

definition errors_New :: "string \<Rightarrow> go_error" where
  "errors_New text = GoError errors_errorString text"

text \<open>\<^verbatim>\<open>strings.Contains(s, substr)\<close>: \<open>substr\<close> occurs in \<open>s\<close> as a contiguous run of bytes.\<close>

definition strings_Contains :: "string \<Rightarrow> string \<Rightarrow> bool" where
  "strings_Contains s substr = sublist substr s"

text \<open>
  \<^verbatim>\<open>strings.Replace(s, old, new, -1)\<close>: the occurrences of \<open>old\<close> are found from the left,
  each search starting behind the previous match, and every one is replaced by \<open>new\<close>.
  For an empty \<open>old\<close> the library inserts \<open>new\<close> in front of every character and at the
  end; \<^verbatim>\<open>redactKeysFromError\<close> never calls it that way.
\<close>

function strings_Replace :: "string \<Rightarrow> string \<Rightarrow> string \<Rightarrow> string" where
  "strings_Replace s old new =
     (if old = [] then new @ concat (map (\<lambda>c. c # new) s)
      else if s = [] then []
      else if prefix old s then new @ strings_Replace (drop (length old) s) old new
      else hd s # strings_Replace (tl s) old new)"
  by pat_completeness auto
termination
  by (relation "measure (\<lambda>(s, old, new). length s)") auto

declare strings_Replace.simps [simp del]

section \<open>The error redactor (request.go, redactKeysFromError)\<close>

text \<open>The \<^verbatim>\<open>for _, key := range keys\<close> loop, with \<open>errMessage\<close> as the loop state.\<close>

fun redact_loop :: "string \<Rightarrow> string list \<Rightarrow> string" where
  "redact_loop errMessage [] = errMessage"
| "redact_loop errMessage (key # keys) =
     redact_loop (if length key > 0 then strings_Replace errMessage key ''redacted''
                  else errMessage) keys"

definition redactKeysFromError :: "go_error option \<Rightarrow> string list \<Rightarrow> go_error option" where
  "redactKeysFromError err keys =
     (case err of
        None \<Rightarrow> None
      | Some e \<Rightarrow>
          (let errMessage = redact_loop (Error e) keys
           in if errMessage = Error e then Some e else Some (errors_New errMessage)))"

text \<open>
  A key overlaps the placeholder when an inserted placeholder can be part of a new
  occurrence of the key: the key lies inside the placeholder, the placeholder lies inside
  the key, the key begins with an end piece of the placeholder, or the key ends with a
  start piece of it.
\<close>

definition overlaps_placeholder :: "string \<Rightarrow> string \<Rightarrow> bool" where
  "overlaps_placeholder key placeholder =
     (sublist key placeholder \<or> sublist placeholder key
      \<or> (\<exists>p \<in> set (prefixes key). p \<noteq> [] \<and> suffix p placeholder)
      \<or> (\<exists>q \<in> set (suffixes key). q \<noteq> [] \<and> prefix q placeholder))"

text \<open>Example errors used below.\<close>

definition transport_failure :: go_error where
  "transport_failure =
     GoError url_Error ''Get https://dd.example/api/v1/x?api_key=9f3b&application_key=77a1: EOF''"

definition leaky_failure :: go_error where
  "leaky_failure =
     GoError url_Error ''Get https://dd.example/api/v1/x?api_key=d1&application_key=d11: EOF''"

section \<open>Rate limits (ratelimit.go)\<close>

text \<open>\<^verbatim>\<open>time.Duration\<close> counts nanoseconds; \<^verbatim>\<open>int\<close> is taken as the 64-bit integer.\<close>

type_synonym duration = int

definition Second :: duration where
  "Second = 1000000000"

record RateLimit =
  Limit :: int
  Period :: duration
  Remaining :: int
  Reset :: duration

text \<open>
  \<^verbatim>\<open>http.Header\<close> maps a canonical header name to its values.  \<^verbatim>\<open>Header.Get\<close> looks the
  canonical form of the key up and returns the first value, or the empty string.
  \<^verbatim>\<open>textproto.CanonicalMIMEHeaderKey\<close> leaves a key with a byte outside the token
  alphabet as it is; otherwise the first letter and every letter behind a hyphen is made
  upper case and every other letter lower case.
\<close>

type_synonym header = "string \<rightharpoonup> string list"

definition upper_letters :: string where
  "upper_letters = ''ABCDEFGHIJKLMNOPQRSTUVWXYZ''"

definition lower_letters :: string where
  "lower_letters = ''abcdefghijklmnopqrstuvwxyz''"

definition is_upper :: "char \<Rightarrow> bool" where
  "is_upper c = (c \<in> set upper_letters)"

definition is_lower :: "char \<Rightarrow> bool" where
  "is_lower c = (c \<in> set lower_letters)"

definition is_digit :: "char \<Rightarrow> bool" where
  "is_digit c = (c \<in> set ''0123456789'')"

definition to_upper :: "char \<Rightarrow> char" where
  "to_upper c = (case map_of (zip lower_letters upper_letters) c of None \<Rightarrow> c | Some C \<Rightarrow> C)"

definition to_lower :: "char \<Rightarrow> char" where
  "to_lower c = (case map_of (zip upper_letters lower_letters) c of None \<Rightarrow> c | Some l \<Rightarrow> l)"

definition validHeaderFieldByte :: "char \<Rightarrow> bool" where
  "validHeaderFieldByte c =
     (is_upper c \<or> is_lower c \<or> is_digit c \<or> c \<in> set ''!#$%&*+-.^_`|~'' \<or> c = CHR 0x27)"

fun canonical_from :: "bool \<Rightarrow> string \<Rightarrow> string" where
  "canonical_from upper [] = []"
| "canonical_from upper (c # cs) =
     (let c' = (if upper then to_upper c else to_lower c)
      in c' # canonical_from (c' = CHR ''-'') cs)"

definition CanonicalMIMEHeaderKey :: "string \<Rightarrow> string" where
  "CanonicalMIMEHeaderKey s =
     (if list_all validHeaderFieldByte s then canonical_from True s else s)"

definition Header_Get :: "header \<Rightarrow> string \<Rightarrow> string" where
  "Header_Get h key =
     (case h (CanonicalMIMEHeaderKey key) of
        None \<Rightarrow> []
      | Some [] \<Rightarrow> []
      | Some (v # _) \<Rightarrow> v)"

text \<open>
  \<^verbatim>\<open>strconv.ParseInt(s, 10, 64)\<close>, with \<open>None\<close> for a non-nil error: an optional sign, then
  at least one decimal digit and nothing else, and a value that fits 64 bits.
\<close>

fun decimal_value :: "nat \<Rightarrow> string \<Rightarrow> nat" where
  "decimal_value acc [] = acc"
| "decimal_value acc (c # cs) = decimal_value (acc * 10 + ((of_char c :: nat) - 48)) cs"

definition strconv_ParseInt :: "string \<Rightarrow> int option" where
  "strconv_ParseInt s =
     (if s = [] then None
      else
        let neg = (hd s = CHR ''-'');
            digits = (if hd s = CHR ''+'' \<or> hd s = CHR ''-'' then tl s else s)
        in if digits = [] \<or> \<not> list_all is_digit digits then None
           else
             let un = decimal_value 0 digits
             in if \<not> neg \<and> un \<ge> 2 ^ 63 then None
                else if neg \<and> un > 2 ^ 63 then None
                else Some (if neg then - int un else int un))"

text \<open>
  A \<^verbatim>\<open>float64\<close>: not a number, an infinity with its sign (\<open>True\<close> for the negative one),
  or the finite value \<open>m * 2 ^ q\<close> as \<open>Finite m q\<close>.  The sign of a zero is not kept:
  the conversion to an integer gives 0 for both zeros.
\<close>

datatype float64 = NaN | Infinite bool | Finite int int

text \<open>
  Rounding of the positive fraction \<open>num / den\<close> to the nearest \<^verbatim>\<open>float64\<close>, ties to
  the even mantissa (IEEE 754): the exponent of the leading bit is found, and is not
  taken below -1022, where the subnormal numbers begin; the fraction is rounded to a
  multiple of the unit 52 binary places below; a result of \<open>2 ^ 1024\<close> or more is an
  infinity.
\<close>

function bit_len :: "int \<Rightarrow> int" where
  "bit_len n = (if n \<le> 0 then 0 else 1 + bit_len (n div 2))"
  by pat_completeness auto
termination
  by (relation "measure nat") auto

declare bit_len.simps [simp del]

definition floor_log2 :: "int \<Rightarrow> int \<Rightarrow> int" where
  "floor_log2 num den =
     (let d = bit_len num - bit_len den
      in if (if 0 \<le> d then den * 2 ^ nat d \<le> num else den \<le> num * 2 ^ nat (- d))
         then d else d - 1)"

definition round_half_even :: "int \<Rightarrow> int \<Rightarrow> int" where
  "round_half_even a b =
     (let n = a div b; r = a mod b
      in if b < 2 * r \<or> (2 * r = b \<and> odd n) then n + 1 else n)"

definition float64_round :: "bool \<Rightarrow> int \<Rightarrow> int \<Rightarrow> float64" where
  "float64_round neg num den =
     (if num = 0 then Finite 0 0
      else
        let e = max (floor_log2 num den) (- 1022);
            q = e - 52;
            n = (if 0 \<le> q then round_half_even num (den * 2 ^ nat q)
                 else round_half_even (num * 2 ^ nat (- q)) den)
        in if 971 < q \<or> (q = 971 \<and> 2 ^ 53 \<le> n) then Infinite neg
           else Finite (if neg then - n else n) q)"

text \<open>
  The product of two \<^verbatim>\<open>float64\<close> values: the exact product, rounded.  An infinity times
  zero is not a number.
\<close>

definition float64_mul :: "float64 \<Rightarrow> float64 \<Rightarrow> float64" where
  "float64_mul x y =
     (case (x, y) of
        (NaN, _) \<Rightarrow> NaN
      | (_, NaN) \<Rightarrow> NaN
      | (Infinite a, Infinite b) \<Rightarrow> Infinite (a \<noteq> b)
      | (Infinite a, Finite m q) \<Rightarrow> (if m = 0 then NaN else Infinite (a \<noteq> (m < 0)))
      | (Finite m q, Infinite b) \<Rightarrow> (if m = 0 then NaN else Infinite ((m < 0) \<noteq> b))
      | (Finite m q, Finite m' q') \<Rightarrow>
          (let p = \<bar>m * m'\<bar>; e = q + q'
           in float64_round ((m < 0) \<noteq> (m' < 0))
                (if 0 \<le> e then p * 2 ^ nat e else p)
                (if 0 \<le> e then 1 else 2 ^ nat (- e))))"

text \<open>The constant \<^verbatim>\<open>1e9\<close>, which a \<^verbatim>\<open>float64\<close> holds exactly.\<close>

definition float64_1e9 :: float64 where
  "float64_1e9 = Finite 1000000000 0"

text \<open>
  \<^verbatim>\<open>strconv.ParseFloat(s, 64)\<close>, as the library of Go 1.13 and later reads a number.
  \<^verbatim>\<open>special\<close> reads the names of the infinities and of not-a-number, in any case,
  and says how many bytes it took; \<^verbatim>\<open>commonPrefixLenIgnoreCase\<close> folds the letters
  \<^verbatim>\<open>A\<close> to \<^verbatim>\<open>Z\<close> only.
\<close>

fun commonPrefixLenIgnoreCase :: "string \<Rightarrow> string \<Rightarrow> nat" where
  "commonPrefixLenIgnoreCase [] p = 0"
| "commonPrefixLenIgnoreCase (c # s) [] = 0"
| "commonPrefixLenIgnoreCase (c # s) (d # p) =
     (if to_lower c = d then Suc (commonPrefixLenIgnoreCase s p) else 0)"

definition special_infinity :: "bool \<Rightarrow> nat \<Rightarrow> string \<Rightarrow> (float64 \<times> nat) option" where
  "special_infinity neg nsign s =
     (let n = commonPrefixLenIgnoreCase s ''infinity'';
          n = (if 3 < n \<and> n < 8 then 3 else n)
      in if n = 3 \<or> n = 8 then Some (Infinite neg, nsign + n) else None)"

definition special :: "string \<Rightarrow> (float64 \<times> nat) option" where
  "special s =
     (case s of
        [] \<Rightarrow> None
      | c # cs \<Rightarrow>
          if c = CHR ''+'' \<or> c = CHR ''-'' then special_infinity (c = CHR ''-'') 1 cs
          else if c = CHR ''i'' \<or> c = CHR ''I'' then special_infinity False 0 s
          else if c = CHR ''n'' \<or> c = CHR ''N''
          then (if commonPrefixLenIgnoreCase s ''nan'' = 3 then Some (NaN, 3) else None)
          else None)"

text \<open>
  \<^verbatim>\<open>readFloat\<close> reads an optional sign, the prefix \<^verbatim>\<open>0x\<close> of a hexadecimal number when
  something follows it, the digits of the mantissa with at most one point and with
  underscores, and an exponent, which a hexadecimal number must have; it stops at the
  first byte that fits none of this.  The library compares letters through \<^verbatim>\<open>lower\<close>,
  which sets one bit of the byte; on the letters compared here that is \<open>to_lower\<close>.
  The library keeps the first 19 digits of the mantissa and a flag for the rest, and
  reads the text again where they do not decide the result; here the mantissa keeps
  every digit, and \<open>frac\<close> counts the digits behind the point.  The exponent stops
  growing when it has reached 10000, as in the library.
\<close>

definition digit_value :: "char \<Rightarrow> int" where
  "digit_value c = int (of_char c) - 48"

definition is_hex_letter :: "char \<Rightarrow> bool" where
  "is_hex_letter c = (to_lower c \<in> set ''abcdef'')"

definition hex_letter_value :: "char \<Rightarrow> int" where
  "hex_letter_value c = int (of_char (to_lower c)) - 87"

record mantissa_state =
  sawdot :: bool
  sawdigits :: bool
  mantissa :: int
  frac :: int
  underscores :: bool

fun mantissa_loop :: "bool \<Rightarrow> mantissa_state \<Rightarrow> string \<Rightarrow> mantissa_state \<times> string" where
  "mantissa_loop hex st [] = (st, [])"
| "mantissa_loop hex st (c # cs) =
     (if c = CHR ''_'' then mantissa_loop hex (st \<lparr> underscores := True \<rparr>) cs
      else if c = CHR ''.''
      then (if sawdot st then (st, c # cs) else mantissa_loop hex (st \<lparr> sawdot := True \<rparr>) cs)
      else if is_digit c
      then mantissa_loop hex
             (st \<lparr> sawdigits := True,
                   mantissa := mantissa st * (if hex then 16 else 10) + digit_value c,
                   frac := frac st + (if sawdot st then 1 else 0) \<rparr>) cs
      else if hex \<and> is_hex_letter c
      then mantissa_loop hex
             (st \<lparr> sawdigits := True,
                   mantissa := mantissa st * 16 + hex_letter_value c,
                   frac := frac st + (if sawdot st then 1 else 0) \<rparr>) cs
      else (st, c # cs))"

fun exponent_loop :: "int \<Rightarrow> bool \<Rightarrow> string \<Rightarrow> int \<times> bool \<times> string" where
  "exponent_loop e u [] = (e, u, [])"
| "exponent_loop e u (c # cs) =
     (if c = CHR ''_'' then exponent_loop e True cs
      else if is_digit c
      then exponent_loop (if e < 10000 then e * 10 + digit_value c else e) u cs
      else (e, u, c # cs))"

text \<open>
  \<^verbatim>\<open>underscoreOK\<close>: an underscore stands between two digits, or between the prefix of
  the base and a digit.
\<close>

fun underscoreOK_loop :: "bool \<Rightarrow> char \<Rightarrow> string \<Rightarrow> bool" where
  "underscoreOK_loop hex saw [] = (saw \<noteq> CHR ''_'')"
| "underscoreOK_loop hex saw (c # cs) =
     (if is_digit c \<or> (hex \<and> is_hex_letter c) then underscoreOK_loop hex CHR ''0'' cs
      else if c = CHR ''_''
      then (if saw \<noteq> CHR ''0'' then False else underscoreOK_loop hex CHR ''_'' cs)
      else if saw = CHR ''_'' then False
      else underscoreOK_loop hex CHR ''!'' cs)"

definition underscoreOK :: "string \<Rightarrow> bool" where
  "underscoreOK s =
     (let s1 = (if s \<noteq> [] \<and> (hd s = CHR ''-'' \<or> hd s = CHR ''+'') then tl s else s);
          pre = (2 \<le> length s1 \<and> hd s1 = CHR ''0''
                   \<and> to_lower (s1 ! 1) \<in> set ''box'');
          hex = (pre \<and> to_lower (s1 ! 1) = CHR ''x'')
      in underscoreOK_loop hex (if pre then CHR ''0'' else CHR ''^'')
           (if pre then drop 2 s1 else s1))"

text \<open>
  The result of \<open>readFloat\<close>: the sign, whether the number is hexadecimal, the mantissa,
  the exponent of 10 (of 2 for a hexadecimal number) that goes with it, and the text
  that was not read; \<open>None\<close> when the text does not begin with a number.
\<close>

definition readFloat_end ::
  "string \<Rightarrow> bool \<Rightarrow> bool \<Rightarrow> int \<Rightarrow> int \<Rightarrow> bool \<Rightarrow> string
     \<Rightarrow> (bool \<times> bool \<times> int \<times> int \<times> string) option" where
  "readFloat_end s neg hex m expo u rest =
     (if u \<and> \<not> underscoreOK (take (length s - length rest) s) then None
      else Some (neg, hex, m, expo, rest))"

definition readFloat_number ::
  "string \<Rightarrow> bool \<Rightarrow> bool \<Rightarrow> string \<Rightarrow> (bool \<times> bool \<times> int \<times> int \<times> string) option" where
  "readFloat_number s neg hex s1 =
     (let (st, s2) = mantissa_loop hex
                       \<lparr> sawdot = False, sawdigits = False, mantissa = 0, frac = 0,
                         underscores = False \<rparr> s1;
          dp = (if hex then - 4 * frac st else - frac st)
      in if \<not> sawdigits st then None
         else if s2 \<noteq> [] \<and> to_lower (hd s2) = (if hex then CHR ''p'' else CHR ''e'')
         then
           (let s3 = tl s2;
                esign = (if s3 \<noteq> [] \<and> hd s3 = CHR ''-'' then - 1 else 1);
                s4 = (if s3 \<noteq> [] \<and> (hd s3 = CHR ''+'' \<or> hd s3 = CHR ''-'') then tl s3 else s3)
            in if s4 = [] \<or> \<not> is_digit (hd s4) then None
               else
                 (let (e, u, rest) = exponent_loop 0 (underscores st) s4
                  in readFloat_end s neg hex (mantissa st) (dp + e * esign) u rest))
         else if hex then None
         else readFloat_end s neg hex (mantissa st) dp (underscores st) s2)"

definition readFloat :: "string \<Rightarrow> (bool \<times> bool \<times> int \<times> int \<times> string) option" where
  "readFloat s =
     (if s = [] then None
      else
        let neg = (hd s = CHR ''-'');
            s1 = (if hd s = CHR ''+'' \<or> hd s = CHR ''-'' then tl s else s);
            hex = (2 < length s1 \<and> hd s1 = CHR ''0'' \<and> to_lower (s1 ! 1) = CHR ''x'')
        in readFloat_number s neg hex (if hex then drop 2 s1 else s1))"

text \<open>
  \<^verbatim>\<open>ParseFloat\<close> returns an error, here \<open>None\<close>, when the text is not a number from its
  first byte to its last (\<^verbatim>\<open>ErrSyntax\<close>) and when the number is rounded to an infinity
  (\<^verbatim>\<open>ErrRange\<close>).  Otherwise it returns the \<^verbatim>\<open>float64\<close> nearest to the number.
\<close>

definition nearest_float64 :: "bool \<Rightarrow> bool \<Rightarrow> int \<Rightarrow> int \<Rightarrow> float64" where
  "nearest_float64 neg hex m expo =
     (let b = (if hex then 2 else 10)
      in float64_round neg (if 0 \<le> expo then m * b ^ nat expo else m)
           (if 0 \<le> expo then 1 else b ^ nat (- expo)))"

definition strconv_ParseFloat :: "string \<Rightarrow> float64 option" where
  "strconv_ParseFloat s =
     (case special s of
        Some (f, n) \<Rightarrow> if n = length s then Some f else None
      | None \<Rightarrow>
          (case readFloat s of
             None \<Rightarrow> None
           | Some (neg, hex, m, expo, rest) \<Rightarrow>
               if rest \<noteq> [] then None
               else (case nearest_float64 neg hex m expo of
                       Infinite _ \<Rightarrow> None
                     | f \<Rightarrow> Some f)))"

text \<open>
  A text is numeric when it is a number in the syntax of \<^verbatim>\<open>ParseFloat\<close>, which holds
  the decimal integers; the names that \<^verbatim>\<open>ParseFloat\<close> reads are no numbers.
\<close>

definition numeric :: "string \<Rightarrow> bool" where
  "numeric s = (case readFloat s of None \<Rightarrow> False | Some (neg, hex, m, expo, rest) \<Rightarrow> rest = [])"

definition names_infinity_or_NaN :: "string \<Rightarrow> bool" where
  "names_infinity_or_NaN s =
     (map to_lower s \<in> set [''inf'', ''+inf'', ''-inf'', ''infinity'', ''+infinity'',
                             ''-infinity'', ''nan''])"

text \<open>The bytes that a numeric text is made of.\<close>

definition number_byte :: "char \<Rightarrow> bool" where
  "number_byte c = (c \<in> set ''0123456789+-._'' \<or> to_lower c \<in> set ''abcdefpx'')"

text \<open>
  What the program takes from its libraries and from the outside.
  \<open>int64_of_unrepresentable\<close> is the result of converting to a 64-bit integer a
  \<^verbatim>\<open>float64\<close> that is not a number, is infinite or lies outside the 64-bit integers:
  Go leaves that result to the implementation.  \<open>url_Parse\<close> is
  \<^verbatim>\<open>url.Parse\<close>, and \<open>URL_with_credentials u k a\<close> is the string that lines 44 to 48 of
  \<^verbatim>\<open>uriForAPI\<close> build from the parsed URL \<open>u\<close> (its query, with \<open>api_key = k\<close> and
  \<open>application_key = a\<close> added, encoded again).  \<open>json_Marshal\<close> and \<open>http_NewRequest_error\<close>
  are the library's encoder and the checks of \<^verbatim>\<open>http.NewRequest\<close> on method and URL.
  \<open>json_parse\<close> reads a document (\<open>Inl\<close> is the text of a \<^verbatim>\<open>*json.SyntaxError\<close>), and
  \<open>decode_into\<close> stores a parsed document into the caller's target.  \<open>NextBackOff b ctx n\<close>
  is what the policy \<open>b\<close>, bound to the request context \<open>ctx\<close>, answers when it is asked
  for the \<open>n\<close>-th time within one call; \<open>Stop\<close> ends the retries, and a cancelled
  context shows as \<open>Stop\<close>.
\<close>

datatype go_context = Background | Ctx nat

record ExponentialBackOff =
  InitialInterval :: duration
  RandomizationFactor :: rat
  Multiplier :: rat
  MaxInterval :: duration
  MaxElapsedTime :: duration

datatype BackOff = Exponential ExponentialBackOff | Custom nat

definition Stop :: duration where
  "Stop = - 1"

datatype json =
    JNull
  | JBool bool
  | JNumber string
  | JString string
  | JArray "json list"
  | JObject "(string \<times> json) list"

record ('u, 'v) stdlib =
  int64_of_unrepresentable :: "float64 \<Rightarrow> int"
  url_Parse :: "string \<Rightarrow> go_error + 'u"
  URL_with_credentials :: "'u \<Rightarrow> string \<Rightarrow> string \<Rightarrow> string"
  json_Marshal :: "'v \<Rightarrow> go_error + string"
  http_NewRequest_error :: "string \<Rightarrow> string \<Rightarrow> go_error option"
  json_parse :: "string \<Rightarrow> string + json"
  decode_into :: "json \<Rightarrow> 'v \<Rightarrow> go_error option \<times> 'v"
  NextBackOff :: "BackOff \<Rightarrow> go_context \<Rightarrow> nat \<Rightarrow> duration"

text \<open>
  The conversion \<^verbatim>\<open>time.Duration(x)\<close> of a \<^verbatim>\<open>float64\<close> to the 64-bit integer: the
  fraction is cut off, and a value that leaves no 64-bit integer is converted as the
  implementation does.
\<close>

definition float64_to_int64 :: "('u, 'v) stdlib \<Rightarrow> float64 \<Rightarrow> int" where
  "float64_to_int64 env x =
     (case x of
        Finite m q \<Rightarrow>
          (let t = (if 0 \<le> q then m * 2 ^ nat q
                    else if 0 \<le> m then m div 2 ^ nat (- q)
                    else - ((- m) div 2 ^ nat (- q)))
           in if - (2 ^ 63) \<le> t \<and> t < 2 ^ 63 then t else int64_of_unrepresentable env x)
      | _ \<Rightarrow> int64_of_unrepresentable env x)"

text \<open>
  The two readers write a line to the log when parsing fails; the log has no part in
  what they return and is left out.
\<close>

definition intFromHeader :: "header \<Rightarrow> string \<Rightarrow> int" where
  "intFromHeader header key =
     (case strconv_ParseInt (Header_Get header key) of
        None \<Rightarrow> 0
      | Some v \<Rightarrow> v)"

definition durationFromHeader :: "('u, 'v) stdlib \<Rightarrow> header \<Rightarrow> string \<Rightarrow> duration" where
  "durationFromHeader env header key =
     (case strconv_ParseFloat (Header_Get header key) of
        None \<Rightarrow> 0
      | Some seconds \<Rightarrow> float64_to_int64 env (float64_mul seconds float64_1e9))"

definition newRateLimitFromHeaders :: "('u, 'v) stdlib \<Rightarrow> header \<Rightarrow> RateLimit" where
  "newRateLimitFromHeaders env header =
     \<lparr> Limit = intFromHeader header ''X-RateLimit-Limit'',
       Period = durationFromHeader env header ''X-RateLimit-Period'',
       Remaining = intFromHeader header ''X-RateLimit-Remaining'',
       Reset = durationFromHeader env header ''X-RateLimit-Reset'' \<rparr>"

text \<open>A header is missing when the collection has no entry under its canonical name.\<close>

definition header_missing :: "header \<Rightarrow> string \<Rightarrow> bool" where
  "header_missing h key = (h (CanonicalMIMEHeaderKey key) = None)"

section \<open>The client and its transport\<close>

record http_request =
  Method :: string
  URL :: string
  Body :: "string option"
  ContentType :: "string option"
  Context :: go_context

text \<open>
  A response, as far as the client reads it: \<open>ResponseBody\<close> is what
  \<^verbatim>\<open>ioutil.ReadAll(resp.Body)\<close> yields.
\<close>

record http_response =
  StatusCode :: int
  Status :: string
  Header :: header
  ResponseBody :: "go_error + string"

text \<open>
  \<^verbatim>\<open>HttpClient.Do\<close> talks to the network.  The transport gives the outcome of the
  \<open>n\<close>-th call made within one request of the client, counted from 0: an error, or a
  response with a nil error.
\<close>

type_synonym transport = "nat \<Rightarrow> http_request \<Rightarrow> go_error + http_response"

record Client =
  apiKey :: string
  appKey :: string
  baseUrl :: string
  HttpClient :: transport
  RetryTimeout :: duration
  BackOff :: "BackOff option"

text \<open>\<^verbatim>\<open>NewClient\<close>, with the value of the environment variable \<^verbatim>\<open>DATADOG_HOST\<close> and the default transport as arguments.\<close>

definition NewClient :: "string \<Rightarrow> transport \<Rightarrow> string \<Rightarrow> string \<Rightarrow> Client" where
  "NewClient DATADOG_HOST DefaultClient apiKey' appKey' =
     \<lparr> apiKey = apiKey', appKey = appKey',
       baseUrl = (if DATADOG_HOST = [] then ''https://app.datadoghq.com'' else DATADOG_HOST),
       HttpClient = DefaultClient, RetryTimeout = - 1, BackOff = None \<rparr>"

section \<open>The backoff policy (request.go, getBackOff)\<close>

text \<open>\<^verbatim>\<open>backoff.NewExponentialBackOff()\<close> with the defaults of the backoff library.\<close>

definition NewExponentialBackOff :: ExponentialBackOff where
  "NewExponentialBackOff =
     \<lparr> InitialInterval = 500000000, RandomizationFactor = 1 / 2, Multiplier = 3 / 2,
       MaxInterval = 60 * Second, MaxElapsedTime = 15 * 60 * Second \<rparr>"

definition getBackOff :: "Client \<Rightarrow> BackOff" where
  "getBackOff client =
     (case BackOff client of
        Some b \<Rightarrow> b
      | None \<Rightarrow>
          Exponential
            (if RetryTimeout client \<noteq> - 1
             then NewExponentialBackOff \<lparr> MaxElapsedTime := RetryTimeout client \<rparr>
             else NewExponentialBackOff \<lparr> MaxElapsedTime := 60 * Second \<rparr>))"

section \<open>Dispatch and retries (request.go, doerForMethod and doRequestWithRetries)\<close>

text \<open>\<^verbatim>\<open>%d\<close> of \<^verbatim>\<open>fmt\<close>: the decimal digits of an integer, with a minus sign when negative.\<close>

function nat_digits :: "nat \<Rightarrow> string" where
  "nat_digits n =
     (if n < 10 then [''0123456789'' ! n]
      else nat_digits (n div 10) @ [''0123456789'' ! (n mod 10)])"
  by pat_completeness auto
termination
  by (relation "measure id") auto

declare nat_digits.simps [simp del]

definition format_d :: "int \<Rightarrow> string" where
  "format_d i = (if i < 0 then CHR ''-'' # nat_digits (nat (- i)) else nat_digits (nat i))"

text \<open>
  The closure \<open>operation\<close> of \<^verbatim>\<open>doRequestWithRetries\<close>, as a function of what the transport
  call gave: \<open>None\<close> (a nil error) ends the retries, an error asks for another attempt.
\<close>

definition operation :: "go_error + http_response \<Rightarrow> go_error option" where
  "operation outcome =
     (case outcome of
        Inl err \<Rightarrow> Some err
      | Inr resp \<Rightarrow>
          if StatusCode resp \<ge> 200 \<and> StatusCode resp < 300 then None
          else if StatusCode resp \<ge> 400 \<and> StatusCode resp < 500 then None
          else Some (errors_New (''Received HTTP status code '' @ format_d (StatusCode resp))))"

text \<open>
  \<^verbatim>\<open>backoff.RetryNotify\<close>: run the operation; a nil error returns; otherwise the policy is
  asked, \<open>Stop\<close> returns the error, and anything else leads, after the wait, to the next
  attempt.  The loop may go on for ever, which is the value \<open>None\<close>.  The result is what
  \<^verbatim>\<open>doRequestWithRetries\<close> returns (the response of the last attempt when the error is nil)
  together with the number of transport calls made so far.  In
  \<^verbatim>\<open>return resp, backoff.RetryNotify(...)\<close> the variable \<open>resp\<close> is read after the call has
  run, as the Go compiler does it.  The notification callback only observes and is left
  out, and so is the library's permanent error, which the operation never returns.
\<close>

partial_function (option) RetryNotify ::
    "(nat \<Rightarrow> go_error + http_response) \<Rightarrow> (nat \<Rightarrow> duration) \<Rightarrow> nat
      \<Rightarrow> ((go_error + http_response) \<times> nat) option" where
  "RetryNotify attempt next n =
     (case operation (attempt n) of
        None \<Rightarrow> Some (attempt n, Suc n)
      | Some err \<Rightarrow>
          if next n = Stop then Some (Inl err, Suc n)
          else RetryNotify attempt next (Suc n))"

definition doRequestWithRetries ::
    "('u, 'v) stdlib \<Rightarrow> Client \<Rightarrow> http_request \<Rightarrow> ((go_error + http_response) \<times> nat) option" where
  "doRequestWithRetries env client req =
     RetryNotify (\<lambda>n. HttpClient client n req)
       (NextBackOff env (getBackOff client) (Context req)) 0"

text \<open>A single call of the transport.\<close>

definition HttpClient_Do ::
    "Client \<Rightarrow> http_request \<Rightarrow> ((go_error + http_response) \<times> nat) option" where
  "HttpClient_Do client req = Some (HttpClient client 0 req, 1)"

text \<open>
  \<^verbatim>\<open>doerForMethod\<close> returns one of two function values; the datatype names which, and
  \<open>apply_doer\<close> calls it.
\<close>

datatype doer = Doer_HttpClient_Do | Doer_doRequestWithRetries

definition doerForMethod :: "Client \<Rightarrow> string \<Rightarrow> doer" where
  "doerForMethod client method =
     (if method = ''POST'' \<or> method = ''PUT'' then Doer_HttpClient_Do
      else Doer_doRequestWithRetries)"

definition apply_doer ::
    "('u, 'v) stdlib \<Rightarrow> Client \<Rightarrow> doer \<Rightarrow> http_request
      \<Rightarrow> ((go_error + http_response) \<times> nat) option" where
  "apply_doer env client d req =
     (case d of
        Doer_HttpClient_Do \<Rightarrow> HttpClient_Do client req
      | Doer_doRequestWithRetries \<Rightarrow> doRequestWithRetries env client req)"

text \<open>
  The specification's reading of the methods: of the verbs of its wire contract, POST
  creates and PUT updates, and these two are the mutating methods.
\<close>

datatype verb_semantics = Reads | Creates | Updates | Deletes

definition wire_contract :: "string \<rightharpoonup> verb_semantics" where
  "wire_contract = [''GET'' \<mapsto> Reads, ''POST'' \<mapsto> Creates, ''PUT'' \<mapsto> Updates, ''DELETE'' \<mapsto> Deletes]"

definition spec_mutating :: "string \<Rightarrow> bool" where
  "spec_mutating method =
     (wire_contract method = Some Creates \<or> wire_contract method = Some Updates)"

section \<open>The response handler (request.go, handleResponse)\<close>

record StatusResponse =
  common_Status :: string
  common_Error :: string

definition empty_StatusResponse :: StatusResponse where
  "empty_StatusResponse = \<lparr> common_Status = [], common_Error = [] \<rparr>"

text \<open>
  \<^verbatim>\<open>json.Unmarshal(body, &common)\<close>.  A document that does not parse gives a
  \<^verbatim>\<open>*json.SyntaxError\<close> and stores nothing.  A parsed document is stored as the library
  documents it: a value that does not fit its target is skipped, decoding goes on, and
  the earliest such mismatch is returned as a \<^verbatim>\<open>*json.UnmarshalTypeError\<close> at the end;
  \<^verbatim>\<open>null\<close> stores nothing; a member of an object belongs to the field whose JSON name it
  equals, letter case aside (only ASCII case is modelled), and other members are ignored.
\<close>

fun json_kind :: "json \<Rightarrow> string" where
  "json_kind JNull = ''null''"
| "json_kind (JBool _) = ''bool''"
| "json_kind (JNumber _) = ''number''"
| "json_kind (JString _) = ''string''"
| "json_kind (JArray _) = ''array''"
| "json_kind (JObject _) = ''object''"

definition field_mismatch :: "string \<Rightarrow> string \<Rightarrow> go_error" where
  "field_mismatch kind field =
     GoError json_UnmarshalTypeError
       (''json: cannot unmarshal '' @ kind @ '' into Go struct field StatusResponse.'' @ field
          @ '' of type string'')"

definition value_mismatch :: "string \<Rightarrow> go_error" where
  "value_mismatch kind =
     GoError json_UnmarshalTypeError
       (''json: cannot unmarshal '' @ kind @ '' into Go value of type datadog.StatusResponse'')"

text \<open>Storing a value into a string field: the new content and the mismatch, if any.\<close>

fun store_string :: "json \<Rightarrow> string \<Rightarrow> string \<Rightarrow> string \<times> go_error option" where
  "store_string (JString s) field old = (s, None)"
| "store_string JNull field old = (old, None)"
| "store_string v field old = (old, Some (field_mismatch (json_kind v) field))"

definition saveError :: "go_error option \<Rightarrow> go_error option \<Rightarrow> go_error option" where
  "saveError saved err = (case saved of None \<Rightarrow> err | Some e \<Rightarrow> Some e)"

fun decode_members ::
    "(string \<times> json) list \<Rightarrow> StatusResponse \<times> go_error option \<Rightarrow> StatusResponse \<times> go_error option" where
  "decode_members [] acc = acc"
| "decode_members ((key, v) # members) (common, saved) =
     (if map to_lower key = ''status'' then
        (let (s, err) = store_string v ''status'' (common_Status common)
         in decode_members members (common \<lparr> common_Status := s \<rparr>, saveError saved err))
      else if map to_lower key = ''error'' then
        (let (s, err) = store_string v ''error'' (common_Error common)
         in decode_members members (common \<lparr> common_Error := s \<rparr>, saveError saved err))
      else decode_members members (common, saved))"

definition decode_StatusResponse :: "json \<Rightarrow> StatusResponse \<times> go_error option" where
  "decode_StatusResponse v =
     (case v of
        JObject members \<Rightarrow> decode_members members (empty_StatusResponse, None)
      | JNull \<Rightarrow> (empty_StatusResponse, None)
      | _ \<Rightarrow> (empty_StatusResponse, Some (value_mismatch (json_kind v))))"

definition json_Unmarshal_common ::
    "('u, 'v) stdlib \<Rightarrow> string \<Rightarrow> StatusResponse \<times> go_error option" where
  "json_Unmarshal_common env body =
     (case json_parse env body of
        Inl msg \<Rightarrow> (empty_StatusResponse, Some (GoError json_SyntaxError msg))
      | Inr v \<Rightarrow> decode_StatusResponse v)"

text \<open>\<^verbatim>\<open>json.Unmarshal(body, &out)\<close> for a non-nil \<open>out\<close> that holds the caller's target.\<close>

definition json_Unmarshal_out ::
    "('u, 'v) stdlib \<Rightarrow> string \<Rightarrow> 'v \<Rightarrow> go_error option \<times> 'v" where
  "json_Unmarshal_out env body target =
     (case json_parse env body of
        Inl msg \<Rightarrow> (Some (GoError json_SyntaxError msg), target)
      | Inr v \<Rightarrow> decode_into env v target)"

text \<open>
  \<^verbatim>\<open>handleResponse\<close> returns an error or nil; what it leaves in the caller's target is the
  second component (\<open>None\<close> is a nil \<open>out\<close>).
\<close>

definition handleResponse ::
    "('u, 'v) stdlib \<Rightarrow> http_response \<Rightarrow> 'v option \<Rightarrow> go_error option \<times> 'v option" where
  "handleResponse env resp out =
     (case ResponseBody resp of
        Inl err \<Rightarrow> (Some err, out)
      | Inr body0 \<Rightarrow>
          if StatusCode resp < 200 \<or> StatusCode resp > 299
          then (Some (errors_New (''API error '' @ Status resp @ '': '' @ body0)), out)
          else
            (let body = (if length body0 = 0 then ''{}'' else body0);
                 (common, err) = json_Unmarshal_common env body
             in if err \<noteq> None \<and> dynamic_type (the err) \<noteq> json_UnmarshalTypeError
                then (err, out)
                else if common_Status common = ''error''
                then (Some (errors_New (''API returned error: '' @ common_Error common)), out)
                else
                  (case out of
                     None \<Rightarrow> (None, None)
                   | Some target \<Rightarrow>
                       (let (err', target') = json_Unmarshal_out env body target
                        in (err', Some target')))))"

section \<open>Building and running a request (request.go)\<close>

record ResponseMetadata =
  RateLimit :: RateLimit

definition zero_RateLimit :: RateLimit where
  "zero_RateLimit = \<lparr> Limit = 0, Period = 0, Remaining = 0, Reset = 0 \<rparr>"

definition zero_ResponseMetadata :: ResponseMetadata where
  "zero_ResponseMetadata = \<lparr> RateLimit = zero_RateLimit \<rparr>"

definition uriForAPI :: "('u, 'v) stdlib \<Rightarrow> Client \<Rightarrow> string \<Rightarrow> go_error + string" where
  "uriForAPI env client api =
     (case url_Parse env (baseUrl client @ ''/api'' @ api) of
        Inl err \<Rightarrow> Inl err
      | Inr apiBase \<Rightarrow> Inr (URL_with_credentials env apiBase (apiKey client) (appKey client)))"

text \<open>\<^verbatim>\<open>encodeRequestBody\<close>: no reader for a nil body, else the encoder's bytes or its error.\<close>

definition encodeRequestBody :: "('u, 'v) stdlib \<Rightarrow> 'v option \<Rightarrow> go_error + string option" where
  "encodeRequestBody env body =
     (case body of
        None \<Rightarrow> Inr None
      | Some b \<Rightarrow> (case json_Marshal env b of Inl err \<Rightarrow> Inl err | Inr raw \<Rightarrow> Inr (Some raw)))"

definition newJSONRequest ::
    "('u, 'v) stdlib \<Rightarrow> string \<Rightarrow> string \<Rightarrow> 'v option \<Rightarrow> go_error + http_request" where
  "newJSONRequest env method url reqBody =
     (case encodeRequestBody env reqBody of
        Inl err \<Rightarrow> Inl err
      | Inr body \<Rightarrow>
          (case http_NewRequest_error env method url of
             Some err \<Rightarrow> Inl err
           | None \<Rightarrow>
               Inr \<lparr> Method = method, URL = url, Body = body,
                     ContentType = (if body \<noteq> None then Some ''application/json'' else None),
                     Context = Background \<rparr>))"

text \<open>
  \<^verbatim>\<open>doRequestWithContext\<close>.  The result is \<open>None\<close> when the retries never end; otherwise it
  holds the metadata, the error (or nil), what is left in the caller's target, and the
  number of transport calls that were made.
\<close>

definition client_keys :: "Client \<Rightarrow> string list" where
  "client_keys client = [apiKey client, appKey client]"

definition doRequestWithContext ::
    "('u, 'v) stdlib \<Rightarrow> Client \<Rightarrow> go_context option \<Rightarrow> string \<Rightarrow> string \<Rightarrow> 'v option \<Rightarrow> 'v option
      \<Rightarrow> (ResponseMetadata \<times> go_error option \<times> 'v option \<times> nat) option" where
  "doRequestWithContext env client ctx method api reqBody out =
     (let md = zero_ResponseMetadata
      in case uriForAPI env client api of
           Inl err \<Rightarrow> Some (md, Some err, out, 0)
         | Inr url \<Rightarrow>
             (case newJSONRequest env method url reqBody of
                Inl err \<Rightarrow> Some (md, redactKeysFromError (Some err) (client_keys client), out, 0)
              | Inr req0 \<Rightarrow>
                  (let req = (case ctx of None \<Rightarrow> req0 | Some c \<Rightarrow> req0 \<lparr> Context := c \<rparr>)
                   in case apply_doer env client (doerForMethod client method) req of
                        None \<Rightarrow> None
                      | Some (Inl err, n) \<Rightarrow>
                          Some (md, redactKeysFromError (Some err) (client_keys client), out, n)
                      | Some (Inr resp, n) \<Rightarrow>
                          (let (err, out') = handleResponse env resp out
                           in if err \<noteq> None
                              then Some (md, redactKeysFromError err (client_keys client), out', n)
                              else Some (md \<lparr> RateLimit := newRateLimitFromHeaders env (Header resp) \<rparr>,
                                         None, out', n)))))"

text \<open>\<^verbatim>\<open>doJsonRequest\<close>: the same with a nil context, keeping only the error.\<close>

definition doJsonRequest ::
    "('u, 'v) stdlib \<Rightarrow> Client \<Rightarrow> string \<Rightarrow> string \<Rightarrow> 'v option \<Rightarrow> 'v option
      \<Rightarrow> go_error option option" where
  "doJsonRequest env client method api reqBody out =
     map_option (\<lambda>(md, err, out', n). err)
       (doRequestWithContext env client None method api reqBody out)"

section \<open>Sample values\<close>

text \<open>
  A sample library for the examples.  Its tables agree with the Go libraries on the
  strings the examples use: the URL parser rejects one base URL without a scheme whose
  first path segment holds a colon and accepts the other URL used; credentials are added
  to a URL that has no query; four JSON documents are parsed.  A \<^verbatim>\<open>float64\<close> that
  leaves no 64-bit integer is converted to the least 64-bit integer, as the code
  compiled for amd64 does.  The target of a response is an object-shaped value, held
  as a JSON document.  The policy allows two retries.  The encoder is not used, since
  the examples send no body.
\<close>

definition quoted :: "string \<Rightarrow> string" where
  "quoted s = CHR 0x22 # s @ [CHR 0x22]"

definition body_boom :: string where
  "body_boom = ''{'' @ quoted ''status'' @ '':'' @ quoted ''error'' @ '',''
                 @ quoted ''error'' @ '':'' @ quoted ''boom'' @ ''}''"

definition body_mistyped :: string where
  "body_mistyped = ''{'' @ quoted ''status'' @ '':'' @ quoted ''error'' @ '',''
                     @ quoted ''error'' @ '':42}''"

definition sample_url_Parse :: "string \<Rightarrow> go_error + string" where
  "sample_url_Parse rawURL =
     (if rawURL = ''10.0.0.5:8080/relay/9f3b/api/v1/x''
      then Inl (GoError url_Error
             (''parse '' @ rawURL @ '': first path segment in URL cannot contain colon''))
      else Inr rawURL)"

definition sample_json_parse :: "string \<Rightarrow> string + json" where
  "sample_json_parse body =
     (if body = ''{}'' then Inr (JObject [])
      else if body = ''[]'' then Inr (JArray [])
      else if body = body_boom
      then Inr (JObject [(''status'', JString ''error''), (''error'', JString ''boom'')])
      else if body = body_mistyped
      then Inr (JObject [(''status'', JString ''error''), (''error'', JNumber ''42'')])
      else Inl ''unexpected end of JSON input'')"

definition sample_decode_into :: "json \<Rightarrow> json \<Rightarrow> go_error option \<times> json" where
  "sample_decode_into v target =
     (case v of
        JObject members \<Rightarrow> (None, v)
      | JNull \<Rightarrow> (None, target)
      | _ \<Rightarrow> (Some (GoError json_UnmarshalTypeError
                 (''json: cannot unmarshal '' @ json_kind v @ '' into Go value of type map'')),
              target))"

definition sample_env :: "(string, json) stdlib" where
  "sample_env =
     \<lparr> int64_of_unrepresentable = (\<lambda>x. - 9223372036854775808),
       url_Parse = sample_url_Parse,
       URL_with_credentials = (\<lambda>u k a. u @ ''?api_key='' @ k @ ''&application_key='' @ a),
       json_Marshal = (\<lambda>v. Inr ''{}''),
       http_NewRequest_error = (\<lambda>method url. None),
       json_parse = sample_json_parse,
       decode_into = sample_decode_into,
       NextBackOff = (\<lambda>b ctx n. if n < 2 then 500000000 else Stop) \<rparr>"

definition response :: "int \<Rightarrow> string \<Rightarrow> header \<Rightarrow> string \<Rightarrow> http_response" where
  "response code status headers body =
     \<lparr> StatusCode = code, Status = status, Header = headers, ResponseBody = Inr body \<rparr>"

text \<open>
  Transports: one whose connection fails on every call, with the error of
  \<^verbatim>\<open>http.Client\<close> (a \<^verbatim>\<open>*url.Error\<close>, which names the method and the request URL; the
  messages of \<^verbatim>\<open>*url.Error\<close> are written as Go wrote them before version 1.14, without
  quotes around the URL); one that fails, then answers 503, then 404; and one that
  answers 200 with a given body and headers.
\<close>

definition capitalised :: "string \<Rightarrow> string" where
  "capitalised method = (case method of [] \<Rightarrow> [] | c # cs \<Rightarrow> c # map to_lower cs)"

definition connection_error :: "http_request \<Rightarrow> go_error" where
  "connection_error req =
     GoError url_Error (capitalised (Method req) @ '' '' @ URL req @ '': EOF'')"

definition failing_transport :: transport where
  "failing_transport n req = Inl (connection_error req)"

definition flaky_transport :: transport where
  "flaky_transport n req =
     (if n = 0 then Inl (connection_error req)
      else if n = 1 then Inr (response 503 ''503 Service Unavailable'' Map.empty ''busy'')
      else Inr (response 404 ''404 Not Found'' Map.empty ''{}''))"

definition ok_transport :: "header \<Rightarrow> string \<Rightarrow> transport" where
  "ok_transport headers body n req = Inr (response 200 ''200 OK'' headers body)"

text \<open>Two header collections: one with usable rate-limit headers, one without.\<close>

definition full_headers :: header where
  "full_headers =
     map_of [(''X-Ratelimit-Limit'', [''100'']), (''X-Ratelimit-Period'', [''3600'']),
             (''X-Ratelimit-Remaining'', [''97'']), (''X-Ratelimit-Reset'', [''1.5''])]"

definition degraded_headers :: header where
  "degraded_headers =
     map_of [(''X-Ratelimit-Limit'', [''many'']), (''X-Ratelimit-Reset'', [''soon'']),
             (''Content-Type'', [''application/json''])]"

text \<open>
  A header collection whose two duration headers hold the name of an infinity and the
  name of not-a-number, and which has no other rate-limit header.
\<close>

definition named_headers :: header where
  "named_headers =
     map_of [(''X-Ratelimit-Period'', [''Infinity'']), (''X-Ratelimit-Reset'', [''NaN'']),
             (''Content-Type'', [''application/json''])]"

text \<open>A request as \<^verbatim>\<open>newJSONRequest\<close> builds it for a call without body, and some clients.\<close>

definition sample_request :: "string \<Rightarrow> http_request" where
  "sample_request method =
     \<lparr> Method = method,
       URL = ''https://dd.example/api/v1/x?api_key=9f3b&application_key=77a1'',
       Body = None, ContentType = None, Context = Background \<rparr>"

definition leaky_request :: "string \<Rightarrow> http_request" where
  "leaky_request method =
     \<lparr> Method = method,
       URL = ''https://dd.example/api/v1/x?api_key=d1&application_key=d11'',
       Body = None, ContentType = None, Context = Background \<rparr>"

definition flaky_client :: Client where
  "flaky_client = NewClient ''https://dd.example'' flaky_transport ''9f3b'' ''77a1''"

definition failing_client :: Client where
  "failing_client = NewClient ''https://dd.example'' failing_transport ''9f3b'' ''77a1''"

definition ok_client :: Client where
  "ok_client = NewClient ''https://dd.example'' (ok_transport full_headers ''{}'') ''9f3b'' ''77a1''"

text \<open>
  A client whose keys are \<open>d1\<close> and \<open>d11\<close>, and one whose base URL has no scheme and
  names a relay by the API key.
\<close>

definition leaky_client :: Client where
  "leaky_client = NewClient ''https://dd.example'' failing_transport ''d1'' ''d11''"

definition relay_client :: Client where
  "relay_client = NewClient ''10.0.0.5:8080/relay/9f3b'' failing_transport ''9f3b'' ''77a1''"

section \<open>Properties of the error redactor\<close>

lemma strings_Replace_absent:
  "old \<noteq> [] \<Longrightarrow> \<not> sublist old s \<Longrightarrow> strings_Replace s old new = s"
proof (induction s old new rule: strings_Replace.induct)
  case (1 s old new)
  show ?case
  proof (cases "s = []")
    case True
    with "1.prems" show ?thesis by (simp add: strings_Replace.simps)
  next
    case False
    from "1.prems" have np: "\<not> prefix old s" by auto
    have "\<not> sublist old (tl s)"
      using "1.prems"(2) False by (cases s) (auto simp: sublist_Cons_right)
    with "1.IH"(2)[OF "1.prems"(1) False np "1.prems"(1)]
    have "strings_Replace (tl s) old new = tl s" .
    with False np "1.prems"(1) show ?thesis
      by (subst strings_Replace.simps) simp
  qed
qed

lemma strings_Replace_prefix:
  assumes "old \<noteq> []"
  shows "\<forall>k. (\<forall>q. q \<noteq> [] \<longrightarrow> suffix q k \<longrightarrow> \<not> prefix q new) \<and> \<not> sublist new k
           \<longrightarrow> prefix k (strings_Replace s old new) \<longrightarrow> prefix k s"
  using assms
proof (induction s old new rule: strings_Replace.induct)
  case (1 s old new)
  show ?case
  proof (intro allI impI)
    fix k
    assume c: "(\<forall>q. q \<noteq> [] \<longrightarrow> suffix q k \<longrightarrow> \<not> prefix q new) \<and> \<not> sublist new k"
      and p: "prefix k (strings_Replace s old new)"
    consider (empty) "s = []" | (hit) "s \<noteq> []" "prefix old s" | (miss) "s \<noteq> []" "\<not> prefix old s"
      by blast
    then show "prefix k s"
    proof cases
      case empty
      with p "1.prems" show ?thesis by (simp add: strings_Replace.simps)
    next
      case hit
      with "1.prems" have "strings_Replace s old new
          = new @ strings_Replace (drop (length old) s) old new"
        by (subst strings_Replace.simps) simp
      with p have "prefix k new \<or> (\<exists>zs. k = new @ zs)"
        by (auto simp: prefix_append)
      moreover have "prefix k new \<Longrightarrow> k = []"
        using c by (cases "k = []") auto
      moreover have "\<not> (\<exists>zs. k = new @ zs)"
        using c sublist_append_rightI[of new] by blast
      ultimately show ?thesis by auto
    next
      case miss
      with "1.prems" have eq: "strings_Replace s old new = hd s # strings_Replace (tl s) old new"
        by (subst strings_Replace.simps) simp
      show ?thesis
      proof (cases k)
        case Nil
        then show ?thesis by simp
      next
        case (Cons a k')
        with p eq have a: "a = hd s" and p': "prefix k' (strings_Replace (tl s) old new)"
          by auto
        have c': "(\<forall>q. q \<noteq> [] \<longrightarrow> suffix q k' \<longrightarrow> \<not> prefix q new) \<and> \<not> sublist new k'"
          using c Cons by (auto simp: suffix_Cons sublist_Cons_right)
        from "1.IH"(2)[OF "1.prems" miss(1) miss(2) "1.prems"] c' p'
        have "prefix k' (tl s)" by blast
        with a Cons miss(1) show ?thesis by (cases s) auto
      qed
    qed
  qed
qed

lemma strings_Replace_removes:
  "\<not> overlaps_placeholder k new \<Longrightarrow> old \<noteq> [] \<Longrightarrow> old = k \<or> \<not> sublist k s
     \<Longrightarrow> \<not> sublist k (strings_Replace s old new)"
proof (induction s old new rule: strings_Replace.induct)
  case (1 s old new)
  have k: "k \<noteq> []" "\<not> sublist k new" "\<not> sublist new k"
    "\<And>p. p \<noteq> [] \<Longrightarrow> prefix p k \<Longrightarrow> \<not> suffix p new"
    "\<And>q. q \<noteq> [] \<Longrightarrow> suffix q k \<Longrightarrow> \<not> prefix q new"
    using "1.prems"(1) by (auto simp: overlaps_placeholder_def)
  consider (empty) "s = []" | (hit) "s \<noteq> []" "prefix old s" | (miss) "s \<noteq> []" "\<not> prefix old s"
    by blast
  then show ?case
  proof cases
    case empty
    with k(1) "1.prems"(2) show ?thesis by (simp add: strings_Replace.simps)
  next
    case hit
    let ?R = "strings_Replace (drop (length old) s) old new"
    from hit "1.prems"(2) have eq: "strings_Replace s old new = new @ ?R"
      by (subst strings_Replace.simps) simp
    have "old = k \<or> \<not> sublist k (drop (length old) s)"
      using "1.prems"(3) sublist_order.order.trans[OF _ sublist_drop] by blast
    from "1.IH"(1)[OF "1.prems"(2) hit(1) hit(2) "1.prems"(1) "1.prems"(2) this]
    have R: "\<not> sublist k ?R" .
    have "\<not> (\<exists>k1 k2. k = k1 @ k2 \<and> suffix k1 new \<and> prefix k2 ?R)"
    proof
      assume "\<exists>k1 k2. k = k1 @ k2 \<and> suffix k1 new \<and> prefix k2 ?R"
      then obtain k1 k2 where s: "k = k1 @ k2" "suffix k1 new" "prefix k2 ?R" by blast
      show False
      proof (cases "k1 = []")
        case True
        with s R show False by auto
      next
        case False
        with k(4)[of k1] s show False by auto
      qed
    qed
    with R k(2) show ?thesis unfolding eq sublist_append by blast
  next
    case miss
    let ?R = "strings_Replace (tl s) old new"
    from miss "1.prems"(2) have eq: "strings_Replace s old new = hd s # ?R"
      by (subst strings_Replace.simps) simp
    have "old = k \<or> \<not> sublist k (tl s)"
      using "1.prems"(3) sublist_order.order.trans[OF _ sublist_tl] by blast
    from "1.IH"(2)[OF "1.prems"(2) miss(1) miss(2) "1.prems"(1) "1.prems"(2) this]
    have R: "\<not> sublist k ?R" .
    have "\<not> prefix k (strings_Replace s old new)"
    proof
      assume "prefix k (strings_Replace s old new)"
      with strings_Replace_prefix[OF "1.prems"(2), of new s] k(3) k(5)
      have "prefix k s" by blast
      with "1.prems"(3) miss(2) show False by auto
    qed
    with R show ?thesis unfolding eq sublist_Cons_right by simp
  qed
qed

lemma redact_loop_absent:
  "\<forall>k \<in> set keys. k \<noteq> [] \<longrightarrow> \<not> sublist k m \<Longrightarrow> redact_loop m keys = m"
  by (induction keys arbitrary: m) (auto simp: strings_Replace_absent)

lemma redact_loop_removes:
  assumes "\<forall>k \<in> set keys. \<not> overlaps_placeholder k ''redacted''"
    and "\<forall>k \<in> set seen. \<not> overlaps_placeholder k ''redacted'' \<and> \<not> sublist k m"
  shows "\<forall>k \<in> set seen \<union> set keys. \<not> sublist k (redact_loop m keys)"
  using assms
proof (induction keys arbitrary: m seen)
  case Nil
  then show ?case by simp
next
  case (Cons key keys)
  have ne: "key \<noteq> []"
    using Cons.prems(1) by (auto simp: overlaps_placeholder_def)
  let ?m = "strings_Replace m key ''redacted''"
  have "\<forall>k \<in> set (key # seen). \<not> overlaps_placeholder k ''redacted'' \<and> \<not> sublist k ?m"
    using Cons.prems ne strings_Replace_removes[of _ "''redacted''" key m] by auto
  from Cons.IH[OF _ this] Cons.prems(1) ne show ?case by auto
qed

text \<open>
  C4, as the code has it.  For every non-nil error and every list of secrets none of
  which overlaps the placeholder (so every secret is non-empty), the redactor returns an
  error whose message is the result of the replacement loop and contains none of the
  secrets, whether or not a secret occurred in the original message.
\<close>

theorem redactKeysFromError_removes_secrets:
  assumes "\<forall>k \<in> set keys. \<not> overlaps_placeholder k ''redacted''"
  shows "\<exists>e'. redactKeysFromError (Some e) keys = Some e'
           \<and> Error e' = redact_loop (Error e) keys
           \<and> (\<forall>k \<in> set keys. \<not> strings_Contains (Error e') k)"
proof -
  have "\<forall>k \<in> set [] \<union> set keys. \<not> sublist k (redact_loop (Error e) keys)"
    by (rule redact_loop_removes) (use assms in simp_all)
  then show ?thesis
    by (auto simp: redactKeysFromError_def errors_New_def strings_Contains_def Let_def)
qed

theorem redactKeysFromError_removes_secrets_witness:
  "\<not> overlaps_placeholder ''9f3b'' ''redacted''
   \<and> \<not> overlaps_placeholder ''77a1'' ''redacted''
   \<and> redactKeysFromError (Some transport_failure) [''9f3b'', ''77a1'']
       = Some (errors_New
           ''Get https://dd.example/api/v1/x?api_key=redacted&application_key=redacted: EOF'')
   \<and> \<not> strings_Contains
         ''Get https://dd.example/api/v1/x?api_key=redacted&application_key=redacted: EOF''
         ''9f3b''
   \<and> \<not> strings_Contains
         ''Get https://dd.example/api/v1/x?api_key=redacted&application_key=redacted: EOF''
         ''77a1''"
proof -
  have h1: "\<not> overlaps_placeholder ''9f3b'' ''redacted''"
    by code_simp
  have h2: "\<not> overlaps_placeholder ''77a1'' ''redacted''"
    by code_simp
  have r: "redactKeysFromError (Some transport_failure) [''9f3b'', ''77a1'']
       = Some (errors_New
           ''Get https://dd.example/api/v1/x?api_key=redacted&application_key=redacted: EOF'')"
    by code_simp
  from redactKeysFromError_removes_secrets[of "[''9f3b'', ''77a1'']" transport_failure] h1 h2
  obtain e' where e': "redactKeysFromError (Some transport_failure) [''9f3b'', ''77a1''] = Some e'"
    "\<not> strings_Contains (Error e') ''9f3b''" "\<not> strings_Contains (Error e') ''77a1''"
    by auto
  from e'(1) have "e' = errors_New
      ''Get https://dd.example/api/v1/x?api_key=redacted&application_key=redacted: EOF''"
    unfolding r by simp
  then have "Error e'
      = ''Get https://dd.example/api/v1/x?api_key=redacted&application_key=redacted: EOF''"
    by (simp add: errors_New_def)
  with e'(2,3) h1 h2 r show ?thesis by simp
qed

text \<open>
  C4 as stated fails: the API key \<open>d1\<close> occurs in the message, every occurrence of both
  keys is replaced, and the text that follows the second placeholder completes a new
  occurrence of \<open>d1\<close> in the returned message.
\<close>

theorem redactKeysFromError_leaves_secret:
  "strings_Contains (Error leaky_failure) ''d1''
   \<and> redactKeysFromError (Some leaky_failure) [''d1'', ''d11'']
       = Some (errors_New
           ''Get https://dd.example/api/v1/x?api_key=redacted&application_key=redacted1: EOF'')
   \<and> strings_Contains
         ''Get https://dd.example/api/v1/x?api_key=redacted&application_key=redacted1: EOF''
         ''d1''"
  by code_simp

text \<open>
  C9.  For every non-nil error and every list of secrets, when no non-empty secret occurs
  in the error's message the redactor returns the error it was given, dynamic type
  included, and builds no new error.  (An empty secret is skipped by the loop, so it does
  not matter whether the list holds one.)
\<close>

theorem redactKeysFromError_identity:
  assumes "\<forall>k \<in> set keys. k \<noteq> [] \<longrightarrow> \<not> strings_Contains (Error e) k"
  shows "redactKeysFromError (Some e) keys = Some e"
  using assms redact_loop_absent[of keys "Error e"]
  by (simp add: redactKeysFromError_def strings_Contains_def)

theorem redactKeysFromError_identity_witness:
  "\<not> strings_Contains (Error transport_failure) ''c0ffee''
   \<and> redactKeysFromError (Some transport_failure) [''c0ffee'', ''''] = Some transport_failure
   \<and> dynamic_type transport_failure = url_Error"
proof -
  have h: "\<not> strings_Contains (Error transport_failure) ''c0ffee''"
    by code_simp
  from redactKeysFromError_identity[of "[''c0ffee'', '''']" transport_failure] h show ?thesis
    by (simp add: transport_failure_def)
qed

section \<open>The backoff policy provider\<close>

text \<open>
  C8.  For every client configuration: a policy supplied by the caller is returned as it
  is; otherwise the result is the library's exponential policy with its maximum elapsed
  time set to the configured retry timeout when that is not the sentinel -1, and to 60
  seconds when it is.
\<close>

theorem getBackOff_selection:
  "(BackOff client = Some b \<longrightarrow> getBackOff client = b)
   \<and> (BackOff client = None \<and> RetryTimeout client \<noteq> - 1 \<longrightarrow>
        getBackOff client
          = Exponential (NewExponentialBackOff \<lparr> MaxElapsedTime := RetryTimeout client \<rparr>)
        \<and> (\<exists>e. getBackOff client = Exponential e \<and> MaxElapsedTime e = RetryTimeout client))
   \<and> (BackOff client = None \<and> RetryTimeout client = - 1 \<longrightarrow>
        getBackOff client
          = Exponential (NewExponentialBackOff \<lparr> MaxElapsedTime := 60 * Second \<rparr>)
        \<and> (\<exists>e. getBackOff client = Exponential e \<and> MaxElapsedTime e = 60000000000))"
  by (simp add: getBackOff_def Second_def)

theorem getBackOff_selection_witness:
  "getBackOff ((NewClient [] failing_transport ''9f3b'' ''77a1'') \<lparr> BackOff := Some (Custom 7) \<rparr>)
     = Custom 7
   \<and> getBackOff ((NewClient [] failing_transport ''9f3b'' ''77a1'') \<lparr> RetryTimeout := 30 * Second \<rparr>)
     = Exponential (NewExponentialBackOff \<lparr> MaxElapsedTime := 30 * Second \<rparr>)
   \<and> getBackOff (NewClient [] failing_transport ''9f3b'' ''77a1'')
     = Exponential (NewExponentialBackOff \<lparr> MaxElapsedTime := 60 * Second \<rparr>)"
  using
    getBackOff_selection[of "(NewClient [] failing_transport ''9f3b'' ''77a1'') \<lparr> BackOff := Some (Custom 7) \<rparr>" "Custom 7"]
    getBackOff_selection[of "(NewClient [] failing_transport ''9f3b'' ''77a1'') \<lparr> RetryTimeout := 30 * Second \<rparr>"]
    getBackOff_selection[of "NewClient [] failing_transport ''9f3b'' ''77a1''"]
  by (simp add: NewClient_def Second_def)

section \<open>The header extractor\<close>

lemma Header_Get_missing: "header_missing h key \<Longrightarrow> Header_Get h key = []"
  by (simp add: header_missing_def Header_Get_def)

lemma strconv_ParseInt_empty: "strconv_ParseInt [] = None"
  by (simp add: strconv_ParseInt_def)

lemma strconv_ParseFloat_empty: "strconv_ParseFloat [] = None"
  by (simp add: strconv_ParseFloat_def special_def readFloat_def)

text \<open>A decimal digit is none of the other bytes that the readers of numbers look for.\<close>

lemma is_digit_other:
  assumes "is_digit c"
  shows "c \<noteq> CHR ''_''" "c \<noteq> CHR ''.''" "to_lower c \<noteq> CHR ''x''"
  using assms
  by (auto simp: is_digit_def to_lower_def upper_letters_def lower_letters_def)

lemma mantissa_loop_digits:
  "list_all is_digit ds
     \<Longrightarrow> snd (mantissa_loop False st ds) = []
         \<and> underscores (fst (mantissa_loop False st ds)) = underscores st
         \<and> (ds \<noteq> [] \<or> sawdigits st \<longrightarrow> sawdigits (fst (mantissa_loop False st ds)))"
proof (induction ds arbitrary: st)
  case Nil
  then show ?case by simp
next
  case (Cons c ds)
  then have c: "is_digit c" and ds: "list_all is_digit ds" by simp_all
  let ?st = "st \<lparr> sawdigits := True, mantissa := mantissa st * 10 + digit_value c,
                   frac := frac st + (if sawdot st then 1 else 0) \<rparr>"
  have step: "mantissa_loop False st (c # ds) = mantissa_loop False ?st ds"
    using c is_digit_other(1,2)[OF c] by simp
  from Cons.IH[OF ds, of ?st] show ?case
    by (simp only: step) simp
qed

text \<open>Every text that \<^verbatim>\<open>ParseInt\<close> accepts is numeric.\<close>

lemma strconv_ParseInt_numeric:
  assumes "strconv_ParseInt s = Some v"
  shows "numeric s"
proof -
  define ds where "ds = (if hd s = CHR ''+'' \<or> hd s = CHR ''-'' then tl s else s)"
  from assms have s: "s \<noteq> []" and ne: "ds \<noteq> []" and dig: "list_all is_digit ds"
    by (auto simp: strconv_ParseInt_def Let_def ds_def split: if_splits)
  have nohex: "(2 < length ds \<and> hd ds = CHR ''0'' \<and> to_lower (ds ! 1) = CHR ''x'') = False"
  proof -
    have "to_lower (ds ! 1) \<noteq> CHR ''x''" if "2 < length ds"
    proof -
      from that have "ds ! 1 \<in> set ds" by simp
      with dig have "is_digit (ds ! 1)" by (simp add: list_all_iff)
      then show ?thesis by (rule is_digit_other(3))
    qed
    then show ?thesis by blast
  qed
  let ?st0 = "\<lparr> sawdot = False, sawdigits = False, mantissa = 0, frac = 0,
                 underscores = False \<rparr>"
  obtain st rest where loop: "mantissa_loop False ?st0 ds = (st, rest)"
    by (cases "mantissa_loop False ?st0 ds")
  from mantissa_loop_digits[OF dig, of ?st0] loop ne
  have r: "rest = []" "\<not> underscores st" "sawdigits st" by simp_all
  have "readFloat s = readFloat_number s (hd s = CHR ''-'') False ds"
    unfolding readFloat_def Let_def ds_def[symmetric] nohex using s by simp
  also have "\<dots> = Some (hd s = CHR ''-'', False, mantissa st, - frac st, [])"
    unfolding readFloat_number_def loop using r
    by (simp add: readFloat_end_def)
  finally have "readFloat s = Some (hd s = CHR ''-'', False, mantissa st, - frac st, [])" .
  then show ?thesis by (simp add: numeric_def)
qed

text \<open>The names that \<^verbatim>\<open>special\<close> reads to the end of the text.\<close>

lemma commonPrefixLenIgnoreCase_le: "commonPrefixLenIgnoreCase s p \<le> length s"
  by (induction s p rule: commonPrefixLenIgnoreCase.induct) simp_all

lemma commonPrefixLenIgnoreCase_all:
  "commonPrefixLenIgnoreCase s p = length s \<Longrightarrow> map to_lower s = take (length s) p"
  by (induction s p rule: commonPrefixLenIgnoreCase.induct) (simp_all split: if_splits)

lemma special_infinity_all:
  assumes "special_infinity neg nsign s = Some (f, nsign + length s)"
  shows "map to_lower s = ''inf'' \<or> map to_lower s = ''infinity''"
proof -
  define n where "n = commonPrefixLenIgnoreCase s ''infinity''"
  have le: "n \<le> length s" unfolding n_def by (rule commonPrefixLenIgnoreCase_le)
  from assms have "(length s = 3 \<and> 3 \<le> n \<and> n < 8) \<or> (length s = 8 \<and> n = 8)"
    by (auto simp: special_infinity_def Let_def n_def[symmetric] split: if_splits)
  with le have "n = length s" "length s = 3 \<or> length s = 8" by auto
  with commonPrefixLenIgnoreCase_all[of s "''infinity''"] show ?thesis
    by (auto simp: n_def)
qed

lemma to_lower_sign: "to_lower CHR ''+'' = CHR ''+''" "to_lower CHR ''-'' = CHR ''-''"
  by (simp_all add: to_lower_def upper_letters_def lower_letters_def)

lemma special_all:
  assumes "special s = Some (f, length s)"
  shows "names_infinity_or_NaN s"
proof (cases s)
  case Nil
  with assms show ?thesis by (simp add: special_def)
next
  case (Cons c cs)
  consider (sign) "c = CHR ''+'' \<or> c = CHR ''-''"
    | (inf) "c \<noteq> CHR ''+''" "c \<noteq> CHR ''-''" "c = CHR ''i'' \<or> c = CHR ''I''"
    | (nan) "c \<noteq> CHR ''+''" "c \<noteq> CHR ''-''" "c \<noteq> CHR ''i''" "c \<noteq> CHR ''I''"
    by blast
  then show ?thesis
  proof cases
    case sign
    with assms Cons have "special_infinity (c = CHR ''-'') 1 cs = Some (f, 1 + length cs)"
      by (auto simp: special_def)
    from special_infinity_all[OF this] sign Cons show ?thesis
      by (auto simp: names_infinity_or_NaN_def to_lower_sign)
  next
    case inf
    with assms Cons have "special_infinity False 0 s = Some (f, 0 + length s)"
      by (auto simp: special_def)
    from special_infinity_all[OF this] show ?thesis
      by (auto simp: names_infinity_or_NaN_def)
  next
    case nan
    with assms Cons have "commonPrefixLenIgnoreCase s ''nan'' = 3" "length s = 3"
      by (auto simp: special_def split: if_splits)
    with commonPrefixLenIgnoreCase_all[of s "''nan''"] show ?thesis
      by (auto simp: names_infinity_or_NaN_def)
  qed
qed

text \<open>
  \<^verbatim>\<open>ParseFloat\<close> accepts nothing but the numeric texts and the seven names, and
  \<^verbatim>\<open>ParseInt\<close> nothing but numeric texts.
\<close>

lemma strconv_ParseFloat_accepts:
  assumes "strconv_ParseFloat s = Some x"
  shows "numeric s \<or> names_infinity_or_NaN s"
proof (cases "special s")
  case None
  with assms show ?thesis
    by (auto simp: strconv_ParseFloat_def numeric_def split: option.splits if_splits)
next
  case (Some r)
  obtain f n where r: "r = (f, n)" by (cases r)
  with assms Some have "n = length s"
    by (auto simp: strconv_ParseFloat_def split: if_splits)
  with Some r special_all[of s f] show ?thesis by simp
qed

text \<open>What a numeric text is made of.\<close>

lemma number_byte_cases:
  "is_digit c \<Longrightarrow> number_byte c"
  "is_hex_letter c \<Longrightarrow> number_byte c"
  "c = CHR ''_'' \<Longrightarrow> number_byte c"
  "c = CHR ''.'' \<Longrightarrow> number_byte c"
  "c = CHR ''+'' \<Longrightarrow> number_byte c"
  "c = CHR ''-'' \<Longrightarrow> number_byte c"
  "to_lower c = CHR ''e'' \<Longrightarrow> number_byte c"
  "to_lower c = CHR ''p'' \<Longrightarrow> number_byte c"
  "to_lower c = CHR ''x'' \<Longrightarrow> number_byte c"
  by (auto simp: number_byte_def is_digit_def is_hex_letter_def)

lemma mantissa_loop_bytes:
  "mantissa_loop hex st xs = (st', rest)
     \<Longrightarrow> \<exists>cs. xs = cs @ rest \<and> list_all number_byte cs"
proof (induction xs arbitrary: st)
  case Nil
  then show ?case by simp
next
  case (Cons c xs)
  show ?case
  proof (cases "mantissa_loop hex st (c # xs) = (st, c # xs)")
    case True
    with Cons.prems have "rest = c # xs" by simp
    then show ?thesis by simp
  next
    case False
    then obtain st1 where step: "mantissa_loop hex st (c # xs) = mantissa_loop hex st1 xs"
      and c: "number_byte c"
      by (auto simp: number_byte_cases split: if_splits)
    from Cons.prems step have "mantissa_loop hex st1 xs = (st', rest)" by simp
    from Cons.IH[OF this] obtain cs where "xs = cs @ rest" "list_all number_byte cs" by blast
    with c have "c # xs = (c # cs) @ rest \<and> list_all number_byte (c # cs)" by simp
    then show ?thesis by blast
  qed
qed

lemma exponent_loop_bytes:
  "exponent_loop e u xs = (e', u', rest)
     \<Longrightarrow> \<exists>cs. xs = cs @ rest \<and> list_all number_byte cs"
proof (induction xs arbitrary: e u)
  case Nil
  then show ?case by simp
next
  case (Cons c xs)
  show ?case
  proof (cases "exponent_loop e u (c # xs) = (e, u, c # xs)")
    case True
    with Cons.prems have "rest = c # xs" by simp
    then show ?thesis by simp
  next
    case False
    then obtain e1 u1 where step: "exponent_loop e u (c # xs) = exponent_loop e1 u1 xs"
      and c: "number_byte c"
      by (auto simp: number_byte_cases split: if_splits)
    from Cons.prems step have "exponent_loop e1 u1 xs = (e', u', rest)" by simp
    from Cons.IH[OF this] obtain cs where "xs = cs @ rest" "list_all number_byte cs" by blast
    with c have "c # xs = (c # cs) @ rest \<and> list_all number_byte (c # cs)" by simp
    then show ?thesis by blast
  qed
qed

lemma readFloat_number_bytes:
  assumes "readFloat_number s neg hex s1 = Some (a, b, m, e, [])"
  shows "list_all number_byte s1"
proof -
  let ?st0 = "\<lparr> sawdot = False, sawdigits = False, mantissa = 0, frac = 0,
                 underscores = False \<rparr>"
  obtain st s2 where loop: "mantissa_loop hex ?st0 s1 = (st, s2)"
    by (cases "mantissa_loop hex ?st0 s1")
  from mantissa_loop_bytes[OF loop] obtain cs where cs: "s1 = cs @ s2" "list_all number_byte cs"
    by blast
  show ?thesis
  proof (cases "s2 \<noteq> [] \<and> to_lower (hd s2) = (if hex then CHR ''p'' else CHR ''e'')")
    case False
    with assms loop have "s2 = []"
      by (auto simp: readFloat_number_def readFloat_end_def Let_def split: if_splits)
    with cs show ?thesis by simp
  next
    case True
    then obtain c s3 where s2: "s2 = c # s3" and c: "number_byte c"
      by (cases s2) (auto simp: number_byte_cases split: if_splits)
    define s4 where "s4 = (if s3 \<noteq> [] \<and> (hd s3 = CHR ''+'' \<or> hd s3 = CHR ''-'') then tl s3 else s3)"
    have s3: "\<exists>sg. s3 = sg @ s4 \<and> list_all number_byte sg"
    proof (cases "s3 \<noteq> [] \<and> (hd s3 = CHR ''+'' \<or> hd s3 = CHR ''-'')")
      case True
      then have "s3 = [hd s3] @ s4 \<and> list_all number_byte [hd s3]"
        by (auto simp: s4_def number_byte_cases)
      then show ?thesis by blast
    next
      case False
      then have "s3 = [] @ s4 \<and> list_all number_byte []" by (auto simp: s4_def)
      then show ?thesis by blast
    qed
    obtain e1 u1 rest where el: "exponent_loop 0 (underscores st) s4 = (e1, u1, rest)"
      by (cases "exponent_loop 0 (underscores st) s4")
    from assms loop True s2 el have "rest = []"
      by (auto simp: readFloat_number_def readFloat_end_def Let_def s4_def[symmetric]
          split: if_splits)
    with exponent_loop_bytes[OF el] have "list_all number_byte s4" by auto
    with s3 c cs s2 show ?thesis by auto
  qed
qed

text \<open>
  A numeric text is not empty and holds nothing but digits, signs, points, underscores
  and the letters \<open>a\<close> to \<open>f\<close>, \<open>p\<close> and \<open>x\<close> of either case.
\<close>

lemma numeric_bytes:
  assumes "numeric s"
  shows "s \<noteq> [] \<and> list_all number_byte s"
proof -
  from assms have s: "s \<noteq> []"
    by (auto simp: numeric_def readFloat_def)
  define s1 where "s1 = (if hd s = CHR ''+'' \<or> hd s = CHR ''-'' then tl s else s)"
  define hex where "hex = (2 < length s1 \<and> hd s1 = CHR ''0'' \<and> to_lower (s1 ! 1) = CHR ''x'')"
  have rf: "readFloat s = readFloat_number s (hd s = CHR ''-'') hex (if hex then drop 2 s1 else s1)"
    unfolding readFloat_def Let_def s1_def[symmetric] hex_def[symmetric] using s by simp
  with assms obtain a b m e
    where "readFloat_number s (hd s = CHR ''-'') hex (if hex then drop 2 s1 else s1)
             = Some (a, b, m, e, [])"
    by (auto simp: numeric_def split: option.splits)
  from readFloat_number_bytes[OF this]
  have tail: "list_all number_byte (if hex then drop 2 s1 else s1)" .
  have s1: "list_all number_byte s1"
  proof (cases hex)
    case False
    with tail show ?thesis by simp
  next
    case True
    then obtain x y zs where xyz: "s1 = x # y # zs"
      unfolding hex_def by (cases s1; cases "tl s1") auto
    with True have "number_byte x" "number_byte y"
      unfolding hex_def by (auto simp: number_byte_cases number_byte_def)
    with tail True xyz show ?thesis by simp
  qed
  have "list_all number_byte s"
  proof (cases s)
    case Nil
    then show ?thesis by simp
  next
    case (Cons c cs)
    show ?thesis
    proof (cases "c = CHR ''+'' \<or> c = CHR ''-''")
      case True
      with Cons have "s1 = cs" "number_byte c"
        by (auto simp: s1_def number_byte_cases)
      with s1 Cons show ?thesis by simp
    next
      case False
      with s1 Cons show ?thesis by (simp add: s1_def)
    qed
  qed
  with s show ?thesis by simp
qed

lemma numeric_examples:
  "numeric ''3600''" "numeric ''1.5''" "numeric ''-2.5e-3''" "numeric ''.5''"
  "numeric ''1_000''" "numeric ''0x1p-2''" "numeric ''1e400''"
  "\<not> numeric []" "\<not> numeric ''12 ''" "\<not> numeric ''1,5''" "\<not> numeric ''0x1''"
  "\<not> numeric ''1__0''" "\<not> numeric ''+''" "\<not> numeric ''1e''"
  by code_simp+

lemma intFromHeader_zero:
  "header_missing h key \<or> \<not> numeric (Header_Get h key)
     \<or> strconv_ParseInt (Header_Get h key) = None
     \<Longrightarrow> intFromHeader h key = 0"
  using strconv_ParseInt_numeric[of "Header_Get h key"]
  by (auto simp: intFromHeader_def Header_Get_missing strconv_ParseInt_empty
      split: option.splits)

lemma durationFromHeader_zero:
  "header_missing h key
     \<or> (\<not> numeric (Header_Get h key) \<and> \<not> names_infinity_or_NaN (Header_Get h key))
     \<or> strconv_ParseFloat (Header_Get h key) = None
     \<Longrightarrow> durationFromHeader env h key = 0"
  using strconv_ParseFloat_accepts[of "Header_Get h key"]
  by (auto simp: durationFromHeader_def Header_Get_missing strconv_ParseFloat_empty
      split: option.splits)

text \<open>
  C7.  The extractor is a total function that returns a rate limit and nothing else, so
  it cannot fail.  A field is zero, whatever the other headers hold, when its header is
  missing, when the text of its header is not numeric and, for the two durations, is
  none of the names \<open>inf\<close>, \<open>infinity\<close> (with or without a sign) and \<open>nan\<close> in any
  case, and whenever the parse of its header fails.  When every one of the four headers
  is missing or holds such a text, all four fields are zero.
\<close>

theorem newRateLimitFromHeaders_degrades_to_zero:
  "(header_missing h ''X-RateLimit-Limit''
      \<or> \<not> numeric (Header_Get h ''X-RateLimit-Limit'')
      \<or> strconv_ParseInt (Header_Get h ''X-RateLimit-Limit'') = None
     \<longrightarrow> Limit (newRateLimitFromHeaders env h) = 0)
   \<and> (header_missing h ''X-RateLimit-Period''
      \<or> (\<not> numeric (Header_Get h ''X-RateLimit-Period'')
          \<and> \<not> names_infinity_or_NaN (Header_Get h ''X-RateLimit-Period''))
      \<or> strconv_ParseFloat (Header_Get h ''X-RateLimit-Period'') = None
     \<longrightarrow> Period (newRateLimitFromHeaders env h) = 0)
   \<and> (header_missing h ''X-RateLimit-Remaining''
      \<or> \<not> numeric (Header_Get h ''X-RateLimit-Remaining'')
      \<or> strconv_ParseInt (Header_Get h ''X-RateLimit-Remaining'') = None
     \<longrightarrow> Remaining (newRateLimitFromHeaders env h) = 0)
   \<and> (header_missing h ''X-RateLimit-Reset''
      \<or> (\<not> numeric (Header_Get h ''X-RateLimit-Reset'')
          \<and> \<not> names_infinity_or_NaN (Header_Get h ''X-RateLimit-Reset''))
      \<or> strconv_ParseFloat (Header_Get h ''X-RateLimit-Reset'') = None
     \<longrightarrow> Reset (newRateLimitFromHeaders env h) = 0)
   \<and> ((header_missing h ''X-RateLimit-Limit''
        \<or> \<not> numeric (Header_Get h ''X-RateLimit-Limit''))
      \<and> (header_missing h ''X-RateLimit-Period''
        \<or> (\<not> numeric (Header_Get h ''X-RateLimit-Period'')
            \<and> \<not> names_infinity_or_NaN (Header_Get h ''X-RateLimit-Period'')))
      \<and> (header_missing h ''X-RateLimit-Remaining''
        \<or> \<not> numeric (Header_Get h ''X-RateLimit-Remaining''))
      \<and> (header_missing h ''X-RateLimit-Reset''
        \<or> (\<not> numeric (Header_Get h ''X-RateLimit-Reset'')
            \<and> \<not> names_infinity_or_NaN (Header_Get h ''X-RateLimit-Reset'')))
     \<longrightarrow> newRateLimitFromHeaders env h
           = \<lparr> Limit = 0, Period = 0, Remaining = 0, Reset = 0 \<rparr>)"
proof -
  have fields: "newRateLimitFromHeaders env h
      = \<lparr> Limit = intFromHeader h ''X-RateLimit-Limit'',
          Period = durationFromHeader env h ''X-RateLimit-Period'',
          Remaining = intFromHeader h ''X-RateLimit-Remaining'',
          Reset = durationFromHeader env h ''X-RateLimit-Reset'' \<rparr>"
    by (simp add: newRateLimitFromHeaders_def)
  show ?thesis
    unfolding fields
    using intFromHeader_zero[of h "''X-RateLimit-Limit''"]
      intFromHeader_zero[of h "''X-RateLimit-Remaining''"]
      durationFromHeader_zero[of h "''X-RateLimit-Period''" env]
      durationFromHeader_zero[of h "''X-RateLimit-Reset''" env]
    by (simp del: One_nat_def) blast
qed

lemma canonical_rate_limit_keys:
  "CanonicalMIMEHeaderKey ''X-RateLimit-Limit'' = ''X-Ratelimit-Limit''"
  "CanonicalMIMEHeaderKey ''X-RateLimit-Period'' = ''X-Ratelimit-Period''"
  "CanonicalMIMEHeaderKey ''X-RateLimit-Remaining'' = ''X-Ratelimit-Remaining''"
  "CanonicalMIMEHeaderKey ''X-RateLimit-Reset'' = ''X-Ratelimit-Reset''"
  by code_simp+

lemma sample_texts:
  "\<not> numeric ''many''" "\<not> numeric ''soon''" "\<not> names_infinity_or_NaN ''soon''"
  "\<not> numeric ''Infinity''" "\<not> numeric ''NaN''"
  "names_infinity_or_NaN ''Infinity''" "names_infinity_or_NaN ''NaN''"
  by code_simp+

theorem newRateLimitFromHeaders_degrades_to_zero_witness:
  "Header_Get degraded_headers ''X-RateLimit-Limit'' = ''many''
   \<and> \<not> numeric ''many''
   \<and> header_missing degraded_headers ''X-RateLimit-Period''
   \<and> header_missing degraded_headers ''X-RateLimit-Remaining''
   \<and> Header_Get degraded_headers ''X-RateLimit-Reset'' = ''soon''
   \<and> \<not> numeric ''soon'' \<and> \<not> names_infinity_or_NaN ''soon''
   \<and> newRateLimitFromHeaders sample_env degraded_headers
       = \<lparr> Limit = 0, Period = 0, Remaining = 0, Reset = 0 \<rparr>"
proof -
  have h1: "Header_Get degraded_headers ''X-RateLimit-Limit'' = ''many''"
    by (simp add: degraded_headers_def Header_Get_def canonical_rate_limit_keys)
  have h2: "header_missing degraded_headers ''X-RateLimit-Period''"
    by (simp add: degraded_headers_def header_missing_def canonical_rate_limit_keys)
  have h3: "header_missing degraded_headers ''X-RateLimit-Remaining''"
    by (simp add: degraded_headers_def header_missing_def canonical_rate_limit_keys)
  have h4: "Header_Get degraded_headers ''X-RateLimit-Reset'' = ''soon''"
    by (simp add: degraded_headers_def Header_Get_def canonical_rate_limit_keys)
  have zero: "newRateLimitFromHeaders sample_env degraded_headers
      = \<lparr> Limit = 0, Period = 0, Remaining = 0, Reset = 0 \<rparr>"
    using newRateLimitFromHeaders_degrades_to_zero[of degraded_headers sample_env]
      h2 h3 sample_texts(1,2,3)
    unfolding h1 h4 by blast
  from h1 h2 h3 h4 zero sample_texts(1,2,3) show ?thesis
    by (intro conjI)
qed

text \<open>
  The names of an infinity and of not-a-number are no numbers, and \<^verbatim>\<open>ParseFloat\<close>
  reads them without an error: the two durations are then what the conversion of an
  infinity and of not-a-number to a 64-bit integer gives, which is not zero.
\<close>

lemma strconv_ParseFloat_names:
  "strconv_ParseFloat ''Infinity'' = Some (Infinite False)"
  "strconv_ParseFloat ''NaN'' = Some NaN"
  by code_simp+

theorem newRateLimitFromHeaders_names_not_zero:
  "header_missing named_headers ''X-RateLimit-Limit''
   \<and> Header_Get named_headers ''X-RateLimit-Period'' = ''Infinity''
   \<and> \<not> numeric ''Infinity''
   \<and> header_missing named_headers ''X-RateLimit-Remaining''
   \<and> Header_Get named_headers ''X-RateLimit-Reset'' = ''NaN''
   \<and> \<not> numeric ''NaN''
   \<and> newRateLimitFromHeaders sample_env named_headers
       = \<lparr> Limit = 0, Period = - 9223372036854775808, Remaining = 0,
           Reset = - 9223372036854775808 \<rparr>
   \<and> newRateLimitFromHeaders sample_env named_headers
       \<noteq> \<lparr> Limit = 0, Period = 0, Remaining = 0, Reset = 0 \<rparr>"
proof -
  have h1: "header_missing named_headers ''X-RateLimit-Limit''"
    by (simp add: named_headers_def header_missing_def canonical_rate_limit_keys)
  have h2: "Header_Get named_headers ''X-RateLimit-Period'' = ''Infinity''"
    by (simp add: named_headers_def Header_Get_def canonical_rate_limit_keys)
  have h3: "header_missing named_headers ''X-RateLimit-Remaining''"
    by (simp add: named_headers_def header_missing_def canonical_rate_limit_keys)
  have h4: "Header_Get named_headers ''X-RateLimit-Reset'' = ''NaN''"
    by (simp add: named_headers_def Header_Get_def canonical_rate_limit_keys)
  have ints: "intFromHeader named_headers ''X-RateLimit-Limit'' = 0"
    "intFromHeader named_headers ''X-RateLimit-Remaining'' = 0"
    using h1 h3 by (simp_all add: intFromHeader_zero)
  have durations:
    "durationFromHeader sample_env named_headers ''X-RateLimit-Period'' = - 9223372036854775808"
    "durationFromHeader sample_env named_headers ''X-RateLimit-Reset'' = - 9223372036854775808"
    by (simp_all add: durationFromHeader_def h2 h4 strconv_ParseFloat_names float64_mul_def
        float64_1e9_def float64_to_int64_def sample_env_def)
  have r: "newRateLimitFromHeaders sample_env named_headers
      = \<lparr> Limit = 0, Period = - 9223372036854775808, Remaining = 0,
          Reset = - 9223372036854775808 \<rparr>"
    by (simp add: newRateLimitFromHeaders_def ints durations)
  have n: "newRateLimitFromHeaders sample_env named_headers
      \<noteq> \<lparr> Limit = 0, Period = 0, Remaining = 0, Reset = 0 \<rparr>"
    unfolding r by simp
  from h1 h2 h3 h4 r n sample_texts(4,5) show ?thesis
    by (intro conjI)
qed

text \<open>Headers that do parse are read, so the zeros above are not all the extractor gives.\<close>

lemma strconv_ParseFloat_reads:
  "strconv_ParseFloat ''3600'' = Some (Finite 7916483719987200 (- 41))"
  "strconv_ParseFloat ''1.5'' = Some (Finite 6755399441055744 (- 52))"
  by code_simp+

lemma float64_to_int64_reads:
  "float64_to_int64 env (float64_mul (Finite 7916483719987200 (- 41)) float64_1e9)
     = 3600000000000"
  "float64_to_int64 env (float64_mul (Finite 6755399441055744 (- 52)) float64_1e9)
     = 1500000000"
  by code_simp+

lemma newRateLimitFromHeaders_reads:
  "newRateLimitFromHeaders sample_env full_headers
     = \<lparr> Limit = 100, Period = 3600000000000, Remaining = 97, Reset = 1500000000 \<rparr>"
  by (simp add: newRateLimitFromHeaders_def intFromHeader_def durationFromHeader_def
      full_headers_def Header_Get_def canonical_rate_limit_keys strconv_ParseInt_def
      is_digit_def strconv_ParseFloat_reads float64_to_int64_reads)

section \<open>The retrying executor and the dispatch on the method\<close>

lemma operation_error: "operation (Inl err) = Some err"
  by (simp add: operation_def)

lemma operation_success:
  "200 \<le> StatusCode resp \<Longrightarrow> StatusCode resp < 300 \<Longrightarrow> operation (Inr resp) = None"
  by (simp add: operation_def)

lemma operation_client_error:
  "400 \<le> StatusCode resp \<Longrightarrow> StatusCode resp < 500 \<Longrightarrow> operation (Inr resp) = None"
  by (simp add: operation_def)

lemma operation_other:
  "\<not> (200 \<le> StatusCode resp \<and> StatusCode resp < 300)
     \<Longrightarrow> \<not> (400 \<le> StatusCode resp \<and> StatusCode resp < 500)
     \<Longrightarrow> operation (Inr resp)
         = Some (errors_New (''Received HTTP status code '' @ format_d (StatusCode resp)))"
  by (auto simp: operation_def)

lemma RetryNotify_terminal:
  "operation (attempt n) = None \<Longrightarrow> RetryNotify attempt policy n = Some (attempt n, Suc n)"
  by (subst RetryNotify.simps) simp

lemma RetryNotify_again:
  "operation (attempt n) \<noteq> None \<Longrightarrow> policy n \<noteq> Stop
     \<Longrightarrow> RetryNotify attempt policy n = RetryNotify attempt policy (Suc n)"
  by (subst RetryNotify.simps) auto

lemma RetryNotify_exhausted:
  "operation (attempt n) = Some err \<Longrightarrow> policy n = Stop
     \<Longrightarrow> RetryNotify attempt policy n = Some (Inl err, Suc n)"
  by (subst RetryNotify.simps) simp

text \<open>Retryable outcomes lead to further attempts until one outcome ends the loop.\<close>

lemma RetryNotify_until_terminal:
  "\<forall>i<k. operation (attempt (n + i)) \<noteq> None \<and> policy (n + i) \<noteq> Stop
     \<Longrightarrow> operation (attempt (n + k)) = None
     \<Longrightarrow> RetryNotify attempt policy n = Some (attempt (n + k), Suc (n + k))"
proof (induction k arbitrary: n)
  case 0
  then show ?case by (simp add: RetryNotify_terminal)
next
  case (Suc k)
  from Suc.prems(1) have first: "operation (attempt n) \<noteq> None" "policy n \<noteq> Stop"
    by (metis add.right_neutral zero_less_Suc)+
  have rest: "\<forall>i<k. operation (attempt (Suc n + i)) \<noteq> None \<and> policy (Suc n + i) \<noteq> Stop"
  proof (intro allI impI)
    fix i assume "i < k"
    then have "Suc i < Suc k" by simp
    with Suc.prems(1) have "operation (attempt (n + Suc i)) \<noteq> None \<and> policy (n + Suc i) \<noteq> Stop"
      by blast
    then show "operation (attempt (Suc n + i)) \<noteq> None \<and> policy (Suc n + i) \<noteq> Stop"
      by simp
  qed
  from Suc.prems(2) have last: "operation (attempt (Suc n + k)) = None"
    by simp
  from Suc.IH[OF rest last] RetryNotify_again[of attempt n policy, OF first]
  show ?case by simp
qed

lemma RetryNotify_until_exhausted:
  "\<forall>i<k. operation (attempt (n + i)) \<noteq> None \<and> policy (n + i) \<noteq> Stop
     \<Longrightarrow> operation (attempt (n + k)) = Some err \<Longrightarrow> policy (n + k) = Stop
     \<Longrightarrow> RetryNotify attempt policy n = Some (Inl err, Suc (n + k))"
proof (induction k arbitrary: n)
  case 0
  then show ?case by (simp add: RetryNotify_exhausted)
next
  case (Suc k)
  from Suc.prems(1) have first: "operation (attempt n) \<noteq> None" "policy n \<noteq> Stop"
    by (metis add.right_neutral zero_less_Suc)+
  have rest: "\<forall>i<k. operation (attempt (Suc n + i)) \<noteq> None \<and> policy (Suc n + i) \<noteq> Stop"
  proof (intro allI impI)
    fix i assume "i < k"
    then have "Suc i < Suc k" by simp
    with Suc.prems(1) have "operation (attempt (n + Suc i)) \<noteq> None \<and> policy (n + Suc i) \<noteq> Stop"
      by blast
    then show "operation (attempt (Suc n + i)) \<noteq> None \<and> policy (Suc n + i) \<noteq> Stop"
      by simp
  qed
  from Suc.prems(2,3) have last: "operation (attempt (Suc n + k)) = Some err" "policy (Suc n + k) = Stop"
    by simp_all
  from Suc.IH[OF rest last] RetryNotify_again[of attempt n policy, OF first]
  show ?case by simp
qed

text \<open>
  C3.  One attempt of the retrying executor: a transport failure is passed on as an
  error, which asks for a retry; a status in [200,300) and a status in [400,500) give a
  nil error, which ends the retries; every other status gives the error
  \<open>Received HTTP status code n\<close>.  In the loop, a nil error returns with the outcome of
  that attempt; an error for which the policy does not answer \<open>Stop\<close> is followed by the
  next attempt; so after \<open>k\<close> retryable attempts that the policy lets pass, a terminal
  outcome of attempt \<open>k\<close> is returned after exactly \<open>k + 1\<close> transport calls.
\<close>

theorem operation_classification:
  "operation (Inl err) = Some err
   \<and> (200 \<le> StatusCode resp \<and> StatusCode resp < 300 \<longrightarrow> operation (Inr resp) = None)
   \<and> (400 \<le> StatusCode resp \<and> StatusCode resp < 500 \<longrightarrow> operation (Inr resp) = None)
   \<and> (\<not> (200 \<le> StatusCode resp \<and> StatusCode resp < 300)
        \<and> \<not> (400 \<le> StatusCode resp \<and> StatusCode resp < 500) \<longrightarrow>
      operation (Inr resp)
        = Some (errors_New (''Received HTTP status code '' @ format_d (StatusCode resp))))
   \<and> (operation (attempt n) = None \<longrightarrow>
        RetryNotify attempt policy n = Some (attempt n, Suc n))
   \<and> (operation (attempt n) \<noteq> None \<and> policy n \<noteq> Stop \<longrightarrow>
        RetryNotify attempt policy n = RetryNotify attempt policy (Suc n))
   \<and> ((\<forall>i<k. operation (attempt i) \<noteq> None \<and> policy i \<noteq> Stop) \<and> operation (attempt k) = None \<longrightarrow>
        RetryNotify attempt policy 0 = Some (attempt k, Suc k))"
  using RetryNotify_until_terminal[of k attempt 0 policy]
  by (auto simp: operation_error operation_success operation_client_error operation_other
      RetryNotify_terminal RetryNotify_again simp del: not_None_eq)

lemma flaky_outcomes:
  "operation (flaky_transport 0 req) = Some (connection_error req)"
  "operation (flaky_transport (Suc 0) req) = Some (errors_New ''Received HTTP status code 503'')"
  "2 \<le> n \<Longrightarrow> operation (flaky_transport n req) = None"
  by (simp_all add: flaky_transport_def operation_def response_def format_d_def
      nat_digits.simps)

theorem operation_classification_witness:
  "operation (Inl (connection_error (sample_request ''GET'')))
     = Some (connection_error (sample_request ''GET''))
   \<and> operation (Inr (response 204 ''204 No Content'' Map.empty [])) = None
   \<and> operation (Inr (response 404 ''404 Not Found'' Map.empty ''{}'')) = None
   \<and> operation (Inr (response 503 ''503 Service Unavailable'' Map.empty ''busy''))
       = Some (errors_New ''Received HTTP status code 503'')
   \<and> operation (Inr (response 301 ''301 Moved Permanently'' Map.empty []))
       = Some (errors_New ''Received HTTP status code 301'')
   \<and> RetryNotify (\<lambda>n. flaky_transport n (sample_request ''GET'')) (\<lambda>n. 500000000) 0
       = Some (Inr (response 404 ''404 Not Found'' Map.empty ''{}''), 3)"
proof -
  let ?attempt = "\<lambda>n. flaky_transport n (sample_request ''GET'')"
  let ?policy = "\<lambda>n::nat. 500000000 :: duration"
  have retry: "\<forall>i<2. operation (?attempt i) \<noteq> None \<and> ?policy i \<noteq> Stop"
  proof (intro allI impI)
    fix i :: nat assume "i < 2"
    then have "i = 0 \<or> i = 1" by auto
    then show "operation (?attempt i) \<noteq> None \<and> ?policy i \<noteq> Stop"
      by (auto simp: flaky_outcomes Stop_def)
  qed
  have stop: "operation (?attempt 2) = None"
    by (simp add: flaky_outcomes)
  have loop: "RetryNotify ?attempt ?policy 0 = Some (?attempt 2, Suc 2)"
    using operation_classification[where attempt = ?attempt and k = 2 and policy = ?policy] retry stop by blast
  have a: "operation (Inr (response 204 ''204 No Content'' Map.empty [])) = None"
    using operation_classification[where resp = "response 204 ''204 No Content'' Map.empty []"]
    by (simp add: response_def)
  have b: "operation (Inr (response 404 ''404 Not Found'' Map.empty ''{}'')) = None"
    using operation_classification[where resp = "response 404 ''404 Not Found'' Map.empty ''{}''"]
    by (simp add: response_def)
  have c: "operation (Inr (response 503 ''503 Service Unavailable'' Map.empty ''busy''))
       = Some (errors_New ''Received HTTP status code 503'')"
    using operation_classification[where resp = "response 503 ''503 Service Unavailable'' Map.empty ''busy''"]
    by (simp add: response_def format_d_def nat_digits.simps)
  have d: "operation (Inr (response 301 ''301 Moved Permanently'' Map.empty []))
       = Some (errors_New ''Received HTTP status code 301'')"
    using operation_classification[where resp = "response 301 ''301 Moved Permanently'' Map.empty []"]
    by (simp add: response_def format_d_def nat_digits.simps)
  from loop a b c d show ?thesis
    by (simp add: operation_error flaky_transport_def)
qed

lemma spec_mutating_iff: "spec_mutating method \<longleftrightarrow> method = ''POST'' \<or> method = ''PUT''"
  by (auto simp: spec_mutating_def wire_contract_def)

lemma doRequestWithContext_single_attempt:
  assumes "method = ''POST'' \<or> method = ''PUT''"
  shows "\<exists>md err out' n. doRequestWithContext env client ctx method api reqBody out
            = Some (md, err, out', n) \<and> n \<le> 1"
proof -
  have d: "\<And>req. apply_doer env client (doerForMethod client method) req
              = Some (HttpClient client 0 req, 1)"
    using assms by (auto simp: apply_doer_def doerForMethod_def HttpClient_Do_def)
  show ?thesis
    unfolding doRequestWithContext_def Let_def d
    by (auto split: sum.splits option.splits prod.splits)
qed

text \<open>
  C1.  With the mutating methods read as the create and update verbs of the wire
  contract (POST and PUT): for every method string, \<^verbatim>\<open>doerForMethod\<close> returns the
  single-attempt doer exactly when the method is mutating and the retrying doer exactly
  when it is not; the single-attempt doer makes one transport call and returns its
  outcome; and a request with a mutating method always returns, after at most one
  transport call (none when the request could not be built).
\<close>

theorem doerForMethod_dispatch:
  "(doerForMethod client method = Doer_HttpClient_Do \<longleftrightarrow> spec_mutating method)
   \<and> (doerForMethod client method = Doer_doRequestWithRetries \<longleftrightarrow> \<not> spec_mutating method)
   \<and> (spec_mutating method \<longrightarrow>
        apply_doer env client (doerForMethod client method) req
          = Some (HttpClient client 0 req, 1))
   \<and> (\<not> spec_mutating method \<longrightarrow>
        apply_doer env client (doerForMethod client method) req
          = doRequestWithRetries env client req)
   \<and> (spec_mutating method \<longrightarrow>
        (\<exists>md err out' n. doRequestWithContext env client ctx method api reqBody out
            = Some (md, err, out', n) \<and> n \<le> 1))"
  using doRequestWithContext_single_attempt[of "method" env client ctx api reqBody out]
  by (auto simp: spec_mutating_iff doerForMethod_def apply_doer_def HttpClient_Do_def)

theorem doerForMethod_dispatch_witness:
  "spec_mutating ''POST''
   \<and> doerForMethod flaky_client ''POST'' = Doer_HttpClient_Do
   \<and> apply_doer sample_env flaky_client (doerForMethod flaky_client ''POST'') (sample_request ''POST'')
       = Some (Inl (connection_error (sample_request ''POST'')), 1)
   \<and> \<not> spec_mutating ''GET''
   \<and> doerForMethod flaky_client ''GET'' = Doer_doRequestWithRetries
   \<and> apply_doer sample_env flaky_client (doerForMethod flaky_client ''GET'') (sample_request ''GET'')
       = doRequestWithRetries sample_env flaky_client (sample_request ''GET'')
   \<and> doRequestWithRetries sample_env flaky_client (sample_request ''GET'')
       = Some (Inr (response 404 ''404 Not Found'' Map.empty ''{}''), 3)"
proof -
  have m: "spec_mutating ''POST''" "\<not> spec_mutating ''GET''"
    by (simp_all add: spec_mutating_def wire_contract_def)
  let ?attempt = "\<lambda>n. flaky_transport n (sample_request ''GET'')"
  let ?policy = "NextBackOff sample_env (getBackOff flaky_client) (Context (sample_request ''GET''))"
  have retry: "\<forall>i<2. operation (?attempt (0 + i)) \<noteq> None \<and> ?policy (0 + i) \<noteq> Stop"
  proof (intro allI impI)
    fix i :: nat assume "i < 2"
    then have "i = 0 \<or> i = 1" by auto
    then show "operation (?attempt (0 + i)) \<noteq> None \<and> ?policy (0 + i) \<noteq> Stop"
      by (auto simp: flaky_outcomes Stop_def sample_env_def)
  qed
  have "RetryNotify ?attempt ?policy 0 = Some (?attempt (0 + 2), Suc (0 + 2))"
    by (rule RetryNotify_until_terminal[OF retry]) (simp add: flaky_outcomes)
  then have loop: "doRequestWithRetries sample_env flaky_client (sample_request ''GET'')
       = Some (Inr (response 404 ''404 Not Found'' Map.empty ''{}''), 3)"
    by (simp add: doRequestWithRetries_def flaky_client_def NewClient_def flaky_transport_def)
  have t: "HttpClient flaky_client 0 (sample_request ''POST'')
             = Inl (connection_error (sample_request ''POST''))"
    by (simp add: flaky_client_def NewClient_def flaky_transport_def)
  from doerForMethod_dispatch[of flaky_client "''POST''" sample_env "sample_request ''POST''"] m(1)
  have post: "doerForMethod flaky_client ''POST'' = Doer_HttpClient_Do"
    "apply_doer sample_env flaky_client (doerForMethod flaky_client ''POST'') (sample_request ''POST'')
       = Some (HttpClient flaky_client 0 (sample_request ''POST''), 1)"
    by blast+
  from doerForMethod_dispatch[of flaky_client "''GET''" sample_env "sample_request ''GET''"] m(2)
  have get: "doerForMethod flaky_client ''GET'' = Doer_doRequestWithRetries"
    "apply_doer sample_env flaky_client (doerForMethod flaky_client ''GET'') (sample_request ''GET'')
       = doRequestWithRetries sample_env flaky_client (sample_request ''GET'')"
    by blast+
  from m post(1) post(2)[unfolded t] get loop show ?thesis
    by (intro conjI)
qed

section \<open>The response handler\<close>

lemma store_string_error_type:
  "snd (store_string v field old) = Some e \<Longrightarrow> dynamic_type e = json_UnmarshalTypeError"
  by (cases v) (auto simp: field_mismatch_def)

lemma decode_members_error_type:
  "snd (decode_members members (common, saved)) = Some e
     \<Longrightarrow> saved = Some e \<or> dynamic_type e = json_UnmarshalTypeError"
proof (induction members arbitrary: common saved)
  case Nil
  then show ?case by simp
next
  case (Cons m members)
  obtain key v where m: "m = (key, v)" by (cases m)
  have step: "\<And>common' err. snd (decode_members members (common', saveError saved err)) = Some e
      \<Longrightarrow> err = None \<or> (\<exists>x. err = Some x \<and> dynamic_type x = json_UnmarshalTypeError)
      \<Longrightarrow> saved = Some e \<or> dynamic_type e = json_UnmarshalTypeError"
  proof -
    fix common' err
    assume a: "snd (decode_members members (common', saveError saved err)) = Some e"
      and b: "err = None \<or> (\<exists>x. err = Some x \<and> dynamic_type x = json_UnmarshalTypeError)"
    from Cons.IH[OF a] have "saveError saved err = Some e \<or> dynamic_type e = json_UnmarshalTypeError" .
    with b show "saved = Some e \<or> dynamic_type e = json_UnmarshalTypeError"
      by (auto simp: saveError_def split: option.splits)
  qed
  have st: "\<And>field old. snd (store_string v field old) = None
      \<or> (\<exists>x. snd (store_string v field old) = Some x \<and> dynamic_type x = json_UnmarshalTypeError)"
    using store_string_error_type by (metis not_None_eq)
  consider (status) "map to_lower key = ''status''"
    | (error) "map to_lower key \<noteq> ''status''" "map to_lower key = ''error''"
    | (other) "map to_lower key \<noteq> ''status''" "map to_lower key \<noteq> ''error''"
    by blast
  then show ?case
  proof cases
    case status
    with Cons.prems m show ?thesis
      using step[of _ "snd (store_string v ''status'' (common_Status common))"]
        st[of "''status''" "common_Status common"]
      by (auto simp: case_prod_beta)
  next
    case error
    with Cons.prems m show ?thesis
      using step[of _ "snd (store_string v ''error'' (common_Error common))"]
        st[of "''error''" "common_Error common"]
      by (auto simp: case_prod_beta)
  next
    case other
    with Cons.prems m Cons.IH[of common saved] show ?thesis by simp
  qed
qed

lemma decode_StatusResponse_error_type:
  "snd (decode_StatusResponse v) = Some e \<Longrightarrow> dynamic_type e = json_UnmarshalTypeError"
  using decode_members_error_type[of _ empty_StatusResponse None e]
  by (cases v) (auto simp: decode_StatusResponse_def value_mismatch_def)

lemma json_Unmarshal_common_parsed:
  "json_parse env body = Inr v \<Longrightarrow> json_Unmarshal_common env body = decode_StatusResponse v"
  by (simp add: json_Unmarshal_common_def)

lemma strings_Contains_end: "strings_Contains (p @ x) x"
  by (simp add: strings_Contains_def)

text \<open>What the handler does once the body is read and the status is in the success range.\<close>

lemma handleResponse_success_range:
  assumes "ResponseBody resp = Inr body0" "200 \<le> StatusCode resp" "StatusCode resp \<le> 299"
    and "body = (if body0 = [] then ''{}'' else body0)"
    and "json_Unmarshal_common env body = (common, err)"
  shows "handleResponse env resp out =
     (if err \<noteq> None \<and> dynamic_type (the err) \<noteq> json_UnmarshalTypeError then (err, out)
      else if common_Status common = ''error''
      then (Some (errors_New (''API returned error: '' @ common_Error common)), out)
      else (case out of
              None \<Rightarrow> (None, None)
            | Some target \<Rightarrow> (fst (json_Unmarshal_out env body target),
                              Some (snd (json_Unmarshal_out env body target)))))"
  using assms
  by (simp add: handleResponse_def Let_def case_prod_beta split: option.splits)

text \<open>
  C5.  For every response whose body can be read, whose status is in [200,299] and whose
  body (the empty body counting as \<open>{}\<close>) parses to a document that leaves the envelope's
  status field equal to \<open>error\<close>, the handler returns the error
  \<open>API returned error: \<close> followed by the envelope's error string, which the message
  therefore contains; it does not return success, and the target is left as it was.
\<close>

theorem handleResponse_envelope_error:
  assumes "ResponseBody resp = Inr body0" "200 \<le> StatusCode resp" "StatusCode resp \<le> 299"
    and "json_parse env (if body0 = [] then ''{}'' else body0) = Inr v"
    and "common_Status (fst (decode_StatusResponse v)) = ''error''"
  shows "handleResponse env resp out
           = (Some (errors_New (''API returned error: ''
                      @ common_Error (fst (decode_StatusResponse v)))), out)
         \<and> fst (handleResponse env resp out) \<noteq> None
         \<and> strings_Contains (Error (the (fst (handleResponse env resp out))))
              (common_Error (fst (decode_StatusResponse v)))"
proof -
  let ?body = "if body0 = [] then ''{}'' else body0"
  obtain common err where d: "decode_StatusResponse v = (common, err)"
    by (cases "decode_StatusResponse v")
  with assms(4) have u: "json_Unmarshal_common env ?body = (common, err)"
    by (simp add: json_Unmarshal_common_parsed)
  have ty: "err \<noteq> None \<Longrightarrow> dynamic_type (the err) = json_UnmarshalTypeError"
    using decode_StatusResponse_error_type[of v "the err"] d by auto
  from assms(5) d have st: "common_Status common = ''error''" by simp
  have r: "handleResponse env resp out
          = (Some (errors_New (''API returned error: '' @ common_Error common)), out)"
    using handleResponse_success_range[OF assms(1-3) refl u, of out] ty st by auto
  have c: "strings_Contains (''API returned error: '' @ common_Error common) (common_Error common)"
    by (rule strings_Contains_end)
  from r c d show ?thesis
    by (simp add: errors_New_def)
qed

lemma sample_parse_boom:
  "json_parse sample_env body_boom
     = Inr (JObject [(''status'', JString ''error''), (''error'', JString ''boom'')])"
  by (simp add: sample_env_def sample_json_parse_def body_boom_def quoted_def)

lemma to_lower_keys:
  "map to_lower ''status'' = ''status''" "map to_lower ''error'' = ''error''"
  by code_simp+

lemma decode_boom:
  "decode_StatusResponse (JObject [(''status'', JString ''error''), (''error'', JString ''boom'')])
     = (\<lparr> common_Status = ''error'', common_Error = ''boom'' \<rparr>, None)"
  by code_simp

theorem handleResponse_envelope_error_witness:
  "handleResponse sample_env (response 200 ''200 OK'' Map.empty body_boom) (Some (JObject []))
     = (Some (errors_New ''API returned error: boom''), Some (JObject []))
   \<and> strings_Contains ''API returned error: boom'' ''boom''"
proof -
  let ?resp = "response 200 ''200 OK'' Map.empty body_boom"
  have b: "(if body_boom = [] then ''{}'' else body_boom) = body_boom"
    by (simp add: body_boom_def)
  have "handleResponse sample_env ?resp (Some (JObject []))
      = (Some (errors_New (''API returned error: '' @ common_Error (fst (decode_StatusResponse
            (JObject [(''status'', JString ''error''), (''error'', JString ''boom'')]))))),
         Some (JObject []))"
    using handleResponse_envelope_error[of ?resp body_boom sample_env
        "JObject [(''status'', JString ''error''), (''error'', JString ''boom'')]" "Some (JObject [])"]
    by (simp add: response_def b sample_parse_boom decode_boom)
  then show ?thesis
    by (simp add: decode_boom strings_Contains_def sublist_code)
qed

text \<open>
  C6 as stated fails.  The body \<open>body_mistyped\<close>, an object whose status is the string
  \<open>error\<close> and whose error is the number 42, does not fit the envelope (a number where a
  string is expected), so decoding it reports a type mismatch;
  the handler passes over the mismatch, finds the status \<open>error\<close> that was decoded all the
  same, and fails with \<open>API returned error: \<close>.  It does not go on to decode the body into
  the target, which would have succeeded.
\<close>

theorem handleResponse_mismatch_not_decoded:
  "snd (json_Unmarshal_common sample_env body_mistyped) = Some (field_mismatch ''number'' ''error'')
   \<and> dynamic_type (field_mismatch ''number'' ''error'') = json_UnmarshalTypeError
   \<and> handleResponse sample_env (response 200 ''200 OK'' Map.empty body_mistyped) (Some (JObject []))
       = (Some (errors_New ''API returned error: ''), Some (JObject []))
   \<and> json_Unmarshal_out sample_env body_mistyped (JObject [])
       = (None, JObject [(''status'', JString ''error''), (''error'', JNumber ''42'')])"
  by code_simp

text \<open>
  C6, as the code has it.  For a response whose body can be read and whose status is in
  [200,299]: a type mismatch reported by the envelope decoding is not returned; the
  handler goes on to the status check on what was decoded, and when that status is not
  \<open>error\<close> it decodes the body into the caller's target, or returns success when there is
  no target.  For a body that is a JSON array nothing is decoded, so the handler always
  goes on to the target.  Every other error of the envelope decoding is returned as it is.
\<close>

theorem handleResponse_envelope_decode:
  assumes "ResponseBody resp = Inr body0" "200 \<le> StatusCode resp" "StatusCode resp \<le> 299"
    and "body = (if body0 = [] then ''{}'' else body0)"
  shows "(snd (json_Unmarshal_common env body) = Some e
            \<and> dynamic_type e = json_UnmarshalTypeError
            \<and> common_Status (fst (json_Unmarshal_common env body)) \<noteq> ''error'' \<longrightarrow>
          handleResponse env resp (Some target)
            = (fst (json_Unmarshal_out env body target),
               Some (snd (json_Unmarshal_out env body target)))
          \<and> handleResponse env resp None = (None, None))
       \<and> (json_parse env body = Inr (JArray xs) \<longrightarrow>
          snd (json_Unmarshal_common env body) = Some (value_mismatch ''array'')
          \<and> handleResponse env resp (Some target)
            = (fst (decode_into env (JArray xs) target),
               Some (snd (decode_into env (JArray xs) target))))
       \<and> (snd (json_Unmarshal_common env body) = Some e
            \<and> dynamic_type e \<noteq> json_UnmarshalTypeError \<longrightarrow>
          handleResponse env resp out = (Some e, out))"
proof -
  obtain common err where u: "json_Unmarshal_common env body = (common, err)"
    by (cases "json_Unmarshal_common env body")
  note h = handleResponse_success_range[OF assms u]
  have 1: "snd (json_Unmarshal_common env body) = Some e
            \<and> dynamic_type e = json_UnmarshalTypeError
            \<and> common_Status (fst (json_Unmarshal_common env body)) \<noteq> ''error'' \<longrightarrow>
          handleResponse env resp (Some target)
            = (fst (json_Unmarshal_out env body target),
               Some (snd (json_Unmarshal_out env body target)))
          \<and> handleResponse env resp None = (None, None)"
    using h[of "Some target"] h[of None] u by auto
  have 2: "json_parse env body = Inr (JArray xs) \<longrightarrow>
          snd (json_Unmarshal_common env body) = Some (value_mismatch ''array'')
          \<and> handleResponse env resp (Some target)
            = (fst (decode_into env (JArray xs) target),
               Some (snd (decode_into env (JArray xs) target)))"
  proof
    assume p: "json_parse env body = Inr (JArray xs)"
    then have "json_Unmarshal_common env body
        = (empty_StatusResponse, Some (value_mismatch ''array''))"
      by (simp add: json_Unmarshal_common_def decode_StatusResponse_def)
    with u have c: "common = empty_StatusResponse" "err = Some (value_mismatch ''array'')"
      by simp_all
    have o: "json_Unmarshal_out env body target = decode_into env (JArray xs) target"
      using p by (simp add: json_Unmarshal_out_def)
    show "snd (json_Unmarshal_common env body) = Some (value_mismatch ''array'')
          \<and> handleResponse env resp (Some target)
            = (fst (decode_into env (JArray xs) target),
               Some (snd (decode_into env (JArray xs) target)))"
      using h[of "Some target"] u c o
      by (simp add: value_mismatch_def empty_StatusResponse_def)
  qed
  have 3: "snd (json_Unmarshal_common env body) = Some e
            \<and> dynamic_type e \<noteq> json_UnmarshalTypeError \<longrightarrow>
          handleResponse env resp out = (Some e, out)"
    using h[of out] u by auto
  from 1 2 3 show ?thesis by blast
qed

theorem handleResponse_envelope_decode_witness:
  "json_parse sample_env ''[]'' = Inr (JArray [])
   \<and> handleResponse sample_env (response 200 ''200 OK'' Map.empty ''[]'') (Some (JObject []))
       = (Some (GoError json_UnmarshalTypeError
                 ''json: cannot unmarshal array into Go value of type map''),
          Some (JObject []))
   \<and> snd (json_Unmarshal_common sample_env ''{'') = Some (GoError json_SyntaxError ''unexpected end of JSON input'')
   \<and> handleResponse sample_env (response 200 ''200 OK'' Map.empty ''{'') (Some (JObject []))
       = (Some (GoError json_SyntaxError ''unexpected end of JSON input''), Some (JObject []))"
proof -
  have p: "json_parse sample_env ''[]'' = Inr (JArray [])"
    by (simp add: sample_env_def sample_json_parse_def)
  have s: "snd (json_Unmarshal_common sample_env ''{'')
             = Some (GoError json_SyntaxError ''unexpected end of JSON input'')"
    by (simp add: json_Unmarshal_common_def sample_env_def sample_json_parse_def
        body_boom_def body_mistyped_def quoted_def)
  have d: "decode_into sample_env (JArray []) (JObject [])
      = (Some (GoError json_UnmarshalTypeError
                 ''json: cannot unmarshal array into Go value of type map''), JObject [])"
    by (simp add: sample_env_def sample_decode_into_def)
  from handleResponse_envelope_decode[of "response 200 ''200 OK'' Map.empty ''[]''" "''[]''" "''[]''"
      sample_env _ "JObject []" "[]"] p d
  have a: "handleResponse sample_env (response 200 ''200 OK'' Map.empty ''[]'') (Some (JObject []))
       = (Some (GoError json_UnmarshalTypeError
                 ''json: cannot unmarshal array into Go value of type map''),
          Some (JObject []))"
    by (simp add: response_def)
  from handleResponse_envelope_decode[of "response 200 ''200 OK'' Map.empty ''{''" "''{''" "''{''"
      sample_env "GoError json_SyntaxError ''unexpected end of JSON input''" _ _ "Some (JObject [])"] s
  have b: "handleResponse sample_env (response 200 ''200 OK'' Map.empty ''{'') (Some (JObject []))
       = (Some (GoError json_SyntaxError ''unexpected end of JSON input''), Some (JObject []))"
    by (simp add: response_def)
  from p a s b show ?thesis by (intro conjI)
qed

section \<open>Running a request\<close>

lemma redactKeysFromError_Some: "\<exists>e'. redactKeysFromError (Some e) keys = Some e'"
  by (simp add: redactKeysFromError_def Let_def)

lemma redactKeysFromError_message:
  "redactKeysFromError (Some e) keys = Some e' \<Longrightarrow> Error e' = redact_loop (Error e) keys"
  by (auto simp: redactKeysFromError_def Let_def errors_New_def split: if_splits)

lemma redactKeysFromError_clean:
  assumes "\<forall>k \<in> set keys. \<not> overlaps_placeholder k ''redacted''"
    and "redactKeysFromError (Some e) keys = Some e'"
  shows "\<forall>k \<in> set keys. \<not> strings_Contains (Error e') k"
proof -
  have "\<forall>k \<in> set [] \<union> set keys. \<not> sublist k (redact_loop (Error e) keys)"
    by (rule redact_loop_removes) (use assms(1) in simp_all)
  with redactKeysFromError_message[OF assms(2)] show ?thesis
    by (simp add: strings_Contains_def)
qed

text \<open>The four exits of \<^verbatim>\<open>doRequestWithContext\<close>, one lemma each.\<close>

lemma doRequestWithContext_url_error:
  "uriForAPI env client api = Inl err
     \<Longrightarrow> doRequestWithContext env client ctx method api reqBody out
         = Some (zero_ResponseMetadata, Some err, out, 0)"
  by (simp add: doRequestWithContext_def)

lemma doRequestWithContext_build_error:
  "uriForAPI env client api = Inr url \<Longrightarrow> newJSONRequest env method url reqBody = Inl err
     \<Longrightarrow> doRequestWithContext env client ctx method api reqBody out
         = Some (zero_ResponseMetadata,
                 redactKeysFromError (Some err) [apiKey client, appKey client], out, 0)"
  by (simp add: doRequestWithContext_def client_keys_def)

lemma doRequestWithContext_doer_error:
  "uriForAPI env client api = Inr url \<Longrightarrow> newJSONRequest env method url reqBody = Inr req0
     \<Longrightarrow> apply_doer env client (doerForMethod client method)
           (case ctx of None \<Rightarrow> req0 | Some c \<Rightarrow> req0 \<lparr> Context := c \<rparr>) = Some (Inl err, n)
     \<Longrightarrow> doRequestWithContext env client ctx method api reqBody out
         = Some (zero_ResponseMetadata,
                 redactKeysFromError (Some err) [apiKey client, appKey client], out, n)"
  by (simp add: doRequestWithContext_def client_keys_def)

lemma doRequestWithContext_response:
  "uriForAPI env client api = Inr url \<Longrightarrow> newJSONRequest env method url reqBody = Inr req0
     \<Longrightarrow> apply_doer env client (doerForMethod client method)
           (case ctx of None \<Rightarrow> req0 | Some c \<Rightarrow> req0 \<lparr> Context := c \<rparr>) = Some (Inr resp, n)
     \<Longrightarrow> handleResponse env resp out = (err, out')
     \<Longrightarrow> doRequestWithContext env client ctx method api reqBody out
         = (if err \<noteq> None
            then Some (zero_ResponseMetadata,
                       redactKeysFromError err [apiKey client, appKey client], out', n)
            else Some (\<lparr> RateLimit = newRateLimitFromHeaders env (Header resp) \<rparr>, None, out', n))"
  by (simp add: doRequestWithContext_def client_keys_def zero_ResponseMetadata_def)

text \<open>Every returning run took one of the four exits.\<close>

lemma doRequestWithContext_cases:
  assumes "doRequestWithContext env client ctx method api reqBody out = Some (md, err, out', n)"
  obtains (url_error) e where "uriForAPI env client api = Inl e"
      "md = zero_ResponseMetadata" "err = Some e"
    | (redacted) url e where "uriForAPI env client api = Inr url"
      "md = zero_ResponseMetadata"
      "err = redactKeysFromError (Some e) [apiKey client, appKey client]"
    | (success) url req resp where "uriForAPI env client api = Inr url"
      "apply_doer env client (doerForMethod client method) req = Some (Inr resp, n)"
      "handleResponse env resp out = (None, out')"
      "md = \<lparr> RateLimit = newRateLimitFromHeaders env (Header resp) \<rparr>" "err = None"
proof (cases "uriForAPI env client api")
  case (Inl e)
  with assms doRequestWithContext_url_error[OF Inl, of ctx "method" reqBody out]
  have "md = zero_ResponseMetadata" "err = Some e" by simp_all
  with Inl show ?thesis by (rule url_error)
next
  case (Inr url)
  show ?thesis
  proof (cases "newJSONRequest env method url reqBody")
    case (Inl e)
    with assms doRequestWithContext_build_error[OF Inr Inl, of ctx out]
    have "md = zero_ResponseMetadata"
      "err = redactKeysFromError (Some e) [apiKey client, appKey client]" by simp_all
    with Inr show ?thesis by (rule redacted)
  next
    case req0: (Inr req0)
    let ?req = "case ctx of None \<Rightarrow> req0 | Some c \<Rightarrow> req0 \<lparr> Context := c \<rparr>"
    show ?thesis
    proof (cases "apply_doer env client (doerForMethod client method) ?req")
      case None
      with assms Inr req0 show ?thesis
        by (simp add: doRequestWithContext_def)
    next
      case (Some r)
      obtain outcome k where r: "r = (outcome, k)" by (cases r)
      show ?thesis
      proof (cases outcome)
        case (Inl e)
        with assms doRequestWithContext_doer_error[OF Inr req0, of ctx e k out] Some r
        have "md = zero_ResponseMetadata"
          "err = redactKeysFromError (Some e) [apiKey client, appKey client]" by simp_all
        with Inr show ?thesis by (rule redacted)
      next
        case resp: (Inr resp)
        obtain herr hout where h: "handleResponse env resp out = (herr, hout)"
          by (cases "handleResponse env resp out")
        note d = doRequestWithContext_response[OF Inr req0, of ctx resp k out herr hout]
        show ?thesis
        proof (cases herr)
          case None
          with assms d Some r resp h
          have "apply_doer env client (doerForMethod client method) ?req = Some (Inr resp, n)"
            "handleResponse env resp out = (None, out')"
            "md = \<lparr> RateLimit = newRateLimitFromHeaders env (Header resp) \<rparr>" "err = None"
            by simp_all
          with Inr show ?thesis by (rule success)
        next
          case (Some e)
          with assms d \<open>apply_doer env client (doerForMethod client method) ?req = Some r\<close>
            r resp h
          have "md = zero_ResponseMetadata"
            "err = redactKeysFromError (Some e) [apiKey client, appKey client]" by simp_all
          with Inr show ?thesis by (rule redacted)
        qed
      qed
    qed
  qed
qed

text \<open>
  C10.  Whenever \<^verbatim>\<open>doRequestWithContext\<close> returns a non-nil error, from whichever of its
  exits, the metadata it returns is the zero value, with all four rate-limit fields zero.
  When it returns a nil error, a response was received and handled without error, and
  the rate limit of the metadata is the one read from the headers of that response.
\<close>

theorem doRequestWithContext_metadata:
  assumes "doRequestWithContext env client ctx method api reqBody out = Some (md, err, out', n)"
  shows "(err \<noteq> None \<longrightarrow>
            md = zero_ResponseMetadata
            \<and> RateLimit md = \<lparr> Limit = 0, Period = 0, Remaining = 0, Reset = 0 \<rparr>)
       \<and> (err = None \<longrightarrow>
            (\<exists>req resp. apply_doer env client (doerForMethod client method) req = Some (Inr resp, n)
               \<and> handleResponse env resp out = (None, out')
               \<and> RateLimit md = newRateLimitFromHeaders env (Header resp)))"
  using assms
proof (cases rule: doRequestWithContext_cases)
  case (url_error e)
  then show ?thesis
    by (simp add: zero_ResponseMetadata_def zero_RateLimit_def)
next
  case (redacted url e)
  with redactKeysFromError_Some[of e "[apiKey client, appKey client]"] show ?thesis
    by (auto simp: zero_ResponseMetadata_def zero_RateLimit_def)
next
  case (success url req resp)
  then show ?thesis by auto
qed

lemma sample_uriForAPI:
  "uriForAPI sample_env failing_client ''/v1/x''
     = Inr ''https://dd.example/api/v1/x?api_key=9f3b&application_key=77a1''"
  "uriForAPI sample_env ok_client ''/v1/x''
     = Inr ''https://dd.example/api/v1/x?api_key=9f3b&application_key=77a1''"
  "uriForAPI sample_env leaky_client ''/v1/x''
     = Inr ''https://dd.example/api/v1/x?api_key=d1&application_key=d11''"
  by (simp_all add: uriForAPI_def sample_env_def sample_url_Parse_def failing_client_def
      ok_client_def leaky_client_def NewClient_def)

lemma sample_newJSONRequest:
  "newJSONRequest sample_env method
       ''https://dd.example/api/v1/x?api_key=9f3b&application_key=77a1'' None
     = Inr (sample_request method)"
  "newJSONRequest sample_env method
       ''https://dd.example/api/v1/x?api_key=d1&application_key=d11'' None
     = Inr (leaky_request method)"
  by (simp_all add: newJSONRequest_def encodeRequestBody_def sample_env_def sample_request_def
      leaky_request_def)

lemma failing_post:
  "doRequestWithContext sample_env failing_client None ''POST'' ''/v1/x'' None None
     = Some (zero_ResponseMetadata,
             Some (errors_New
               ''Post https://dd.example/api/v1/x?api_key=redacted&application_key=redacted: EOF''),
             None, 1)"
proof -
  have a: "apply_doer sample_env failing_client (doerForMethod failing_client ''POST'')
             (case None of None \<Rightarrow> sample_request ''POST''
              | Some c \<Rightarrow> (sample_request ''POST'') \<lparr> Context := c \<rparr>)
      = Some (Inl (connection_error (sample_request ''POST'')), 1)"
    by (simp add: apply_doer_def doerForMethod_def HttpClient_Do_def failing_client_def
        NewClient_def failing_transport_def)
  have r: "redactKeysFromError (Some (connection_error (sample_request ''POST'')))
             [apiKey failing_client, appKey failing_client]
      = Some (errors_New
          ''Post https://dd.example/api/v1/x?api_key=redacted&application_key=redacted: EOF'')"
    by code_simp
  show ?thesis
    by (simp only: doRequestWithContext_doer_error[OF sample_uriForAPI(1)
          sample_newJSONRequest(1) a] r)
qed

lemma leaky_post:
  "doRequestWithContext sample_env leaky_client None ''POST'' ''/v1/x'' None None
     = Some (zero_ResponseMetadata,
             Some (errors_New
               ''Post https://dd.example/api/v1/x?api_key=redacted&application_key=redacted1: EOF''),
             None, 1)"
proof -
  have a: "apply_doer sample_env leaky_client (doerForMethod leaky_client ''POST'')
             (case None of None \<Rightarrow> leaky_request ''POST''
              | Some c \<Rightarrow> (leaky_request ''POST'') \<lparr> Context := c \<rparr>)
      = Some (Inl (connection_error (leaky_request ''POST'')), 1)"
    by (simp add: apply_doer_def doerForMethod_def HttpClient_Do_def leaky_client_def
        NewClient_def failing_transport_def)
  have r: "redactKeysFromError (Some (connection_error (leaky_request ''POST'')))
             [apiKey leaky_client, appKey leaky_client]
      = Some (errors_New
          ''Post https://dd.example/api/v1/x?api_key=redacted&application_key=redacted1: EOF'')"
    by code_simp
  show ?thesis
    by (simp only: doRequestWithContext_doer_error[OF sample_uriForAPI(3)
          sample_newJSONRequest(2) a] r)
qed

lemma full_rate_limit:
  "newRateLimitFromHeaders sample_env full_headers
     = \<lparr> Limit = 100, Period = 3600000000000, Remaining = 97, Reset = 1500000000 \<rparr>"
  by (rule newRateLimitFromHeaders_reads)

lemma ok_get:
  "doRequestWithContext sample_env ok_client None ''GET'' ''/v1/x'' None None
     = Some (\<lparr> RateLimit = \<lparr> Limit = 100, Period = 3600000000000, Remaining = 97,
                             Reset = 1500000000 \<rparr> \<rparr>,
             None, None, 1)"
proof -
  let ?resp = "response 200 ''200 OK'' full_headers ''{}''"
  have a: "apply_doer sample_env ok_client (doerForMethod ok_client ''GET'')
             (case None of None \<Rightarrow> sample_request ''GET''
              | Some c \<Rightarrow> (sample_request ''GET'') \<lparr> Context := c \<rparr>)
      = Some (Inr ?resp, 1)"
    by (simp add: apply_doer_def doerForMethod_def doRequestWithRetries_def ok_client_def
        NewClient_def ok_transport_def RetryNotify_terminal operation_def response_def)
  have h: "handleResponse sample_env ?resp None = (None, None)"
    by code_simp
  have hd: "Header ?resp = full_headers"
    by (simp add: response_def)
  from doRequestWithContext_response[OF sample_uriForAPI(2) sample_newJSONRequest(1) a h]
  show ?thesis
    by (simp add: hd full_rate_limit)
qed

theorem doRequestWithContext_metadata_witness:
  "doRequestWithContext sample_env failing_client None ''POST'' ''/v1/x'' None None
     = Some (zero_ResponseMetadata,
             Some (errors_New ''Post https://dd.example/api/v1/x?api_key=redacted&application_key=redacted: EOF''),
             None, 1)
   \<and> RateLimit zero_ResponseMetadata = \<lparr> Limit = 0, Period = 0, Remaining = 0, Reset = 0 \<rparr>
   \<and> doRequestWithContext sample_env ok_client None ''GET'' ''/v1/x'' None None
       = Some (\<lparr> RateLimit = \<lparr> Limit = 100, Period = 3600000000000, Remaining = 97,
                               Reset = 1500000000 \<rparr> \<rparr>,
               None, None, 1)
   \<and> (\<exists>req resp. apply_doer sample_env ok_client (doerForMethod ok_client ''GET'') req
                    = Some (Inr resp, 1)
         \<and> handleResponse sample_env resp None = (None, None)
         \<and> \<lparr> Limit = 100, Period = 3600000000000, Remaining = 97, Reset = 1500000000 \<rparr>
             = newRateLimitFromHeaders sample_env (Header resp))"
proof -
  from doRequestWithContext_metadata[OF failing_post]
  have z: "RateLimit zero_ResponseMetadata = \<lparr> Limit = 0, Period = 0, Remaining = 0, Reset = 0 \<rparr>"
    by simp
  from doRequestWithContext_metadata[OF ok_get]
  have s: "\<exists>req resp. apply_doer sample_env ok_client (doerForMethod ok_client ''GET'') req
                    = Some (Inr resp, 1)
         \<and> handleResponse sample_env resp None = (None, None)
         \<and> \<lparr> Limit = 100, Period = 3600000000000, Remaining = 97, Reset = 1500000000 \<rparr>
             = newRateLimitFromHeaders sample_env (Header resp)"
    by simp
  from failing_post z ok_get s show ?thesis by (intro conjI)
qed

text \<open>
  C2 as stated fails, in two ways.  With a base URL that does not parse and that holds
  the API key, the error of the URL construction is returned as it is and its message
  contains the key.  With the keys \<open>d1\<close> and \<open>d11\<close>, the error of a failed connection is
  redacted and the redacted message contains \<open>d1\<close> again.
\<close>

theorem doRequestWithContext_error_holds_key:
  "apiKey relay_client = ''9f3b''
   \<and> doRequestWithContext sample_env relay_client None ''GET'' ''/v1/x'' None None
       = Some (zero_ResponseMetadata,
               Some (GoError url_Error
                 ''parse 10.0.0.5:8080/relay/9f3b/api/v1/x: first path segment in URL cannot contain colon''),
               None, 0)
   \<and> strings_Contains
         ''parse 10.0.0.5:8080/relay/9f3b/api/v1/x: first path segment in URL cannot contain colon''
         ''9f3b''
   \<and> apiKey leaky_client = ''d1''
   \<and> doRequestWithContext sample_env leaky_client None ''POST'' ''/v1/x'' None None
       = Some (zero_ResponseMetadata,
               Some (errors_New ''Post https://dd.example/api/v1/x?api_key=redacted&application_key=redacted1: EOF''),
               None, 1)
   \<and> strings_Contains
         ''Post https://dd.example/api/v1/x?api_key=redacted&application_key=redacted1: EOF''
         ''d1''"
proof -
  have u: "uriForAPI sample_env relay_client ''/v1/x''
      = Inl (GoError url_Error
                 ''parse 10.0.0.5:8080/relay/9f3b/api/v1/x: first path segment in URL cannot contain colon'')"
    by (simp add: uriForAPI_def sample_env_def sample_url_Parse_def relay_client_def NewClient_def)
  have c1: "strings_Contains
         ''parse 10.0.0.5:8080/relay/9f3b/api/v1/x: first path segment in URL cannot contain colon''
         ''9f3b''"
    by code_simp
  have c2: "strings_Contains
         ''Post https://dd.example/api/v1/x?api_key=redacted&application_key=redacted1: EOF''
         ''d1''"
    by code_simp
  have k: "apiKey relay_client = ''9f3b''" "apiKey leaky_client = ''d1''"
    by (simp_all add: relay_client_def leaky_client_def NewClient_def)
  from k(1) doRequestWithContext_url_error[OF u] c1 k(2) leaky_post c2
  show ?thesis by (intro conjI)
qed

text \<open>
  C2, as the code has it.  Once the URL has been built, every error that
  \<^verbatim>\<open>doRequestWithContext\<close> returns (from building the request, from the transport or the
  retries, from handling the response) is the redactor's output for the underlying error
  and the two keys; and when neither key overlaps the placeholder, its message contains
  neither key.  Nothing is said here about the error of the URL construction itself.
\<close>

theorem doRequestWithContext_errors_redacted:
  assumes "uriForAPI env client api = Inr url"
    and "doRequestWithContext env client ctx method api reqBody out = Some (md, Some e, out', n)"
  shows "(\<exists>e0. redactKeysFromError (Some e0) [apiKey client, appKey client] = Some e)
       \<and> (\<not> overlaps_placeholder (apiKey client) ''redacted''
            \<and> \<not> overlaps_placeholder (appKey client) ''redacted'' \<longrightarrow>
          \<not> strings_Contains (Error e) (apiKey client)
            \<and> \<not> strings_Contains (Error e) (appKey client))"
  using assms(2)
proof (cases rule: doRequestWithContext_cases)
  case (url_error e1)
  with assms(1) show ?thesis by simp
next
  case (redacted url' e0)
  then have r: "redactKeysFromError (Some e0) [apiKey client, appKey client] = Some e"
    by simp
  from redactKeysFromError_clean[OF _ r] have
    "\<not> overlaps_placeholder (apiKey client) ''redacted''
       \<and> \<not> overlaps_placeholder (appKey client) ''redacted'' \<longrightarrow>
     \<not> strings_Contains (Error e) (apiKey client) \<and> \<not> strings_Contains (Error e) (appKey client)"
    by simp
  with r show ?thesis by blast
next
  case (success url' req resp)
  then show ?thesis by simp
qed

theorem doRequestWithContext_errors_redacted_witness:
  "uriForAPI sample_env failing_client ''/v1/x''
     = Inr ''https://dd.example/api/v1/x?api_key=9f3b&application_key=77a1''
   \<and> doRequestWithContext sample_env failing_client None ''POST'' ''/v1/x'' None None
       = Some (zero_ResponseMetadata,
               Some (errors_New ''Post https://dd.example/api/v1/x?api_key=redacted&application_key=redacted: EOF''),
               None, 1)
   \<and> \<not> overlaps_placeholder (apiKey failing_client) ''redacted''
   \<and> \<not> overlaps_placeholder (appKey failing_client) ''redacted''
   \<and> \<not> strings_Contains
         ''Post https://dd.example/api/v1/x?api_key=redacted&application_key=redacted: EOF''
         (apiKey failing_client)
   \<and> \<not> strings_Contains
         ''Post https://dd.example/api/v1/x?api_key=redacted&application_key=redacted: EOF''
         (appKey failing_client)"
proof -
  have k: "apiKey failing_client = ''9f3b''" "appKey failing_client = ''77a1''"
    by (simp_all add: failing_client_def NewClient_def)
  have o: "\<not> overlaps_placeholder (apiKey failing_client) ''redacted''"
    "\<not> overlaps_placeholder (appKey failing_client) ''redacted''"
    unfolding k by code_simp+
  from doRequestWithContext_errors_redacted[OF sample_uriForAPI(1) failing_post] o
  have "\<not> strings_Contains (Error (errors_New ''Post https://dd.example/api/v1/x?api_key=redacted&application_key=redacted: EOF''))
         (apiKey failing_client)
      \<and> \<not> strings_Contains (Error (errors_New ''Post https://dd.example/api/v1/x?api_key=redacted&application_key=redacted: EOF''))
         (appKey failing_client)"
    by blast
  then have c: "\<not> strings_Contains
         ''Post https://dd.example/api/v1/x?api_key=redacted&application_key=redacted: EOF''
         (apiKey failing_client)"
    "\<not> strings_Contains
         ''Post https://dd.example/api/v1/x?api_key=redacted&application_key=redacted: EOF''
         (appKey failing_client)"
    by (simp_all add: errors_New_def)
  from sample_uriForAPI(1) failing_post o c show ?thesis by (intro conjI)
qed

end
